theory Spec2Isabelle
  imports Complex_Main
begin

text \<open>
  A model of the agent execution engine of the platform: the tool executor, the LLM
  gateway and the ReAct loop of \<open>ReActEngine.execute\<close>, followed by the properties the
  specification states about them. Exceptions are values (\<open>Inl\<close> of a sum, or \<open>Threw\<close>
  with the state reached), the local variables of \<open>execute\<close> are a record passed from
  step to step, and everything outside the three components (clock, database, provider
  SDKs, language built-ins) is a parameter.
\<close>

section \<open>JavaScript values and the runtime\<close>

text \<open>
  Values of TypeScript type \<open>any\<close> that the program handles are JSON-shaped: tool
  arguments come from \<open>JSON.parse\<close> or from the provider's \<open>input\<close> field, tool
  schemas from the agent configuration. \<open>JUndefined\<close> is the result of reading a
  property that is not there. A thrown \<open>Error\<close> is identified by its \<open>message\<close>,
  the only part of it the program reads.
\<close>

datatype jsval =
    JUndefined
  | JNull
  | JBool bool
  | JNum rat
  | JStr string
  | JArr "jsval list"
  | JObj "(string \<times> jsval) list"

datatype js_error = Thrown (message: string)

record ToolResult =
  success :: bool
  data :: "jsval option"
  error :: "string option"

text \<open>
  The built-ins of the language the program calls. They are parameters of the model:
  \<open>JSON_parse\<close> is \<open>JSON.parse\<close> (it throws a SyntaxError on text that is not JSON),
  \<open>JSON_stringify\<close> is \<open>JSON.stringify\<close> on a tool result, \<open>String_of\<close> is the
  conversion a template literal applies, and \<open>TypeError_message\<close> is the text of the
  TypeError raised by reading property \<open>p\<close> of \<open>null\<close> or \<open>undefined\<close>.
\<close>

record runtime =
  JSON_parse :: "jsval \<Rightarrow> js_error + jsval"
  JSON_stringify :: "ToolResult \<Rightarrow> js_error + string"
  String_of :: "jsval \<Rightarrow> string"
  TypeError_message :: "jsval \<Rightarrow> string \<Rightarrow> string"

text \<open>
  Property access \<open>v.p\<close>. Reading a property of \<open>undefined\<close> or \<open>null\<close> throws; an
  object yields the property or \<open>undefined\<close>. The property names the program reads
  (\<open>query\<close>, \<open>to\<close>, \<open>subject\<close>, \<open>body\<close>, \<open>channel\<close>, \<open>message\<close>, \<open>function\<close>,
  \<open>description\<close>, \<open>name\<close>, \<open>parameters\<close>) are not defined on booleans, numbers,
  strings or arrays, which therefore yield \<open>undefined\<close>.
\<close>

fun get_prop :: "runtime \<Rightarrow> jsval \<Rightarrow> string \<Rightarrow> js_error + jsval" where
  "get_prop rt JUndefined p = Inl (Thrown (TypeError_message rt JUndefined p))"
| "get_prop rt JNull p = Inl (Thrown (TypeError_message rt JNull p))"
| "get_prop rt (JObj kvs) p = Inr (case map_of kvs p of Some v \<Rightarrow> v | None \<Rightarrow> JUndefined)"
| "get_prop rt (JBool b) p = Inr JUndefined"
| "get_prop rt (JNum n) p = Inr JUndefined"
| "get_prop rt (JStr s) p = Inr JUndefined"
| "get_prop rt (JArr xs) p = Inr JUndefined"

section \<open>Tool executor (packages/backend/src/tools/executor.ts)\<close>

text \<open>
  The five private tool methods perform network calls, read the process environment and
  log. They are parameters: each takes the argument values \<open>execute\<close> passes and either
  returns a \<open>ToolResult\<close> or throws.
\<close>

record tool_backends =
  webSearch :: "jsval \<Rightarrow> js_error + ToolResult"
  sendEmail :: "jsval \<Rightarrow> jsval \<Rightarrow> jsval \<Rightarrow> js_error + ToolResult"
  databaseQuery :: "jsval \<Rightarrow> js_error + ToolResult"
  httpRequest :: "jsval \<Rightarrow> js_error + ToolResult"
  slackNotify :: "jsval \<Rightarrow> jsval \<Rightarrow> js_error + ToolResult"

definition registry :: "string list" where
  "registry = [''web_search'', ''send_email'', ''database_query'', ''http_request'', ''slack_notify'']"

text \<open>The body of the \<open>try\<close> block of \<open>ToolExecutor.execute\<close>: the \<open>switch\<close> on the name.\<close>

definition execute_switch :: "runtime \<Rightarrow> tool_backends \<Rightarrow> string \<Rightarrow> jsval \<Rightarrow> js_error + ToolResult" where
  "execute_switch rt b toolName args =
     (if toolName = ''web_search'' then
        (case get_prop rt args ''query'' of
           Inl e \<Rightarrow> Inl e
         | Inr q \<Rightarrow> webSearch b q)
      else if toolName = ''send_email'' then
        (case get_prop rt args ''to'' of
           Inl e \<Rightarrow> Inl e
         | Inr to \<Rightarrow>
             (case get_prop rt args ''subject'' of
                Inl e \<Rightarrow> Inl e
              | Inr subject \<Rightarrow>
                  (case get_prop rt args ''body'' of
                     Inl e \<Rightarrow> Inl e
                   | Inr body \<Rightarrow> sendEmail b to subject body)))
      else if toolName = ''database_query'' then
        (case get_prop rt args ''query'' of
           Inl e \<Rightarrow> Inl e
         | Inr q \<Rightarrow> databaseQuery b q)
      else if toolName = ''http_request'' then httpRequest b args
      else if toolName = ''slack_notify'' then
        (case get_prop rt args ''channel'' of
           Inl e \<Rightarrow> Inl e
         | Inr channel \<Rightarrow>
             (case get_prop rt args ''message'' of
                Inl e \<Rightarrow> Inl e
              | Inr msg \<Rightarrow> slackNotify b channel msg))
      else Inl (Thrown (''Unknown tool: '' @ toolName)))"

text \<open>
  \<open>ToolExecutor.execute\<close>: the \<open>catch\<close> turns whatever the \<open>try\<close> block throws into a
  failure result. The result type keeps the exceptional alternative \<open>Inl\<close>, so that
  "does not throw" is a statement to prove and not a consequence of the type.
\<close>

definition ToolExecutor_execute :: "runtime \<Rightarrow> tool_backends \<Rightarrow> string \<Rightarrow> jsval \<Rightarrow> js_error + ToolResult" where
  "ToolExecutor_execute rt b toolName args =
     (case execute_switch rt b toolName args of
        Inr r \<Rightarrow> Inr r
      | Inl e \<Rightarrow> Inr \<lparr>success = False, data = None, error = Some (message e)\<rparr>)"

section \<open>LLM gateway (llm/client.ts)\<close>

datatype role = System | User | Assistant | Function

record Message =
  role :: role
  content :: string
  name :: "string option"

record ToolCall =
  tc_id :: string
  tc_name :: string
  tc_arguments :: jsval

record Usage =
  promptTokens :: int
  completionTokens :: int
  totalTokens :: int

record LLMResponse =
  resp_content :: string
  toolCalls :: "ToolCall list option"
  usage :: Usage
  resp_model :: string

text \<open>The optional \<open>options\<close> argument of \<open>chat\<close>, and the same after the defaults are filled in.\<close>

record chat_options =
  opt_model :: "string option"
  opt_tools :: "jsval list option"
  opt_temperature :: "rat option"
  opt_maxTokens :: "int option"

record provider_options =
  po_model :: string
  po_tools :: "jsval list"
  po_temperature :: rat
  po_maxTokens :: int

subsection \<open>The two provider APIs\<close>

record openai_function =
  fn_name :: string
  fn_arguments :: string

record openai_tool_call =
  call_id :: string
  call_function :: openai_function

record openai_message =
  oa_content :: "string option"
  oa_tool_calls :: "openai_tool_call list option"

record openai_usage =
  prompt_tokens :: int
  completion_tokens :: int
  total_tokens :: int

record openai_response =
  choices :: "openai_message list"
  oa_usage :: "openai_usage option"
  oa_model :: string

record openai_request =
  oq_model :: string
  oq_messages :: "Message list"
  oq_tools :: "jsval list option"
  oq_temperature :: rat
  oq_max_tokens :: int

datatype content_block =
    TextBlock string
  | ToolUseBlock string string jsval
  | OtherBlock

record anthropic_usage =
  input_tokens :: int
  output_tokens :: int

record anthropic_response =
  an_content :: "content_block list"
  an_usage :: anthropic_usage
  an_model :: string

record anthropic_turn =
  turn_role :: string
  turn_content :: string

record anthropic_tool =
  at_name :: jsval
  at_description :: jsval
  at_input_schema :: jsval

record anthropic_request =
  aq_model :: string
  aq_system :: string
  aq_messages :: "anthropic_turn list"
  aq_tools :: "anthropic_tool list option"
  aq_temperature :: rat
  aq_max_tokens :: int

text \<open>
  The provider SDKs and the configured default model. A provider call either returns a
  response or throws; the natural number is the position of the call in the run, so
  that two calls with the same request may be answered differently.
\<close>

record providers =
  defaultModel :: string
  openai_create :: "nat \<Rightarrow> openai_request \<Rightarrow> js_error + openai_response"
  anthropic_create :: "nat \<Rightarrow> anthropic_request \<Rightarrow> js_error + anthropic_response"

definition startsWith :: "string \<Rightarrow> string \<Rightarrow> bool" where
  "startsWith s p = (take (length p) s = p)"

subsection \<open>chatOpenAI\<close>

text \<open>\<open>tool_calls?.map(...)\<close>: the arguments of each call are parsed in order; the first
  \<open>JSON.parse\<close> that throws ends the mapping.\<close>

fun map_tool_calls :: "runtime \<Rightarrow> openai_tool_call list \<Rightarrow> js_error + ToolCall list" where
  "map_tool_calls rt [] = Inr []"
| "map_tool_calls rt (tc # tcs) =
     (case JSON_parse rt (JStr (fn_arguments (call_function tc))) of
        Inl e \<Rightarrow> Inl e
      | Inr a \<Rightarrow>
          (case map_tool_calls rt tcs of
             Inl e \<Rightarrow> Inl e
           | Inr rest \<Rightarrow>
               Inr (\<lparr>tc_id = call_id tc, tc_name = fn_name (call_function tc), tc_arguments = a\<rparr> # rest)))"

text \<open>\<open>response.usage?.prompt_tokens || 0\<close> and its two siblings: the provider's
  counter, or 0 when the response has no \<open>usage\<close>.\<close>

definition openai_usage_of :: "openai_response \<Rightarrow> Usage" where
  "openai_usage_of response =
     \<lparr>promptTokens = (case oa_usage response of None \<Rightarrow> 0 | Some u \<Rightarrow> prompt_tokens u),
      completionTokens = (case oa_usage response of None \<Rightarrow> 0 | Some u \<Rightarrow> completion_tokens u),
      totalTokens = (case oa_usage response of None \<Rightarrow> 0 | Some u \<Rightarrow> total_tokens u)\<rparr>"

definition openai_request_of :: "Message list \<Rightarrow> provider_options \<Rightarrow> openai_request" where
  "openai_request_of messages options =
     \<lparr>oq_model = po_model options,
      oq_messages = messages,
      oq_tools = (if length (po_tools options) > 0 then Some (po_tools options) else None),
      oq_temperature = po_temperature options,
      oq_max_tokens = po_maxTokens options\<rparr>"

definition chatOpenAI :: "runtime \<Rightarrow> providers \<Rightarrow> nat \<Rightarrow> Message list \<Rightarrow> provider_options \<Rightarrow> js_error + LLMResponse" where
  "chatOpenAI rt p n messages options =
     (case openai_create p n (openai_request_of messages options) of
        Inl e \<Rightarrow> Inl e
      | Inr response \<Rightarrow>
          (case choices response of
             [] \<Rightarrow> Inl (Thrown (TypeError_message rt JUndefined ''message''))
           | choice # _ \<Rightarrow>
               (case (case oa_tool_calls choice of
                        None \<Rightarrow> Inr None
                      | Some tcs \<Rightarrow>
                          (case map_tool_calls rt tcs of Inl e \<Rightarrow> Inl e | Inr l \<Rightarrow> Inr (Some l))) of
                  Inl e \<Rightarrow> Inl e
                | Inr tool_calls \<Rightarrow>
                    Inr \<lparr>resp_content = (case oa_content choice of None \<Rightarrow> '''' | Some c \<Rightarrow> c),
                         toolCalls = tool_calls,
                         usage = openai_usage_of response,
                         resp_model = oa_model response\<rparr>)))"

subsection \<open>chatAnthropic\<close>

text \<open>\<open>messages.find((m) => m.role === 'system')?.content || ''\<close>\<close>

definition systemMessage :: "Message list \<Rightarrow> string" where
  "systemMessage messages =
     (case find (\<lambda>m. role m = System) messages of
        None \<Rightarrow> ''''
      | Some m \<Rightarrow> content m)"

text \<open>The turn list: system messages are filtered out; an assistant message keeps its
  role and every other message is sent as \<open>user\<close>. The new object has the two fields
  \<open>role\<close> and \<open>content\<close> only.\<close>

definition userMessages :: "Message list \<Rightarrow> anthropic_turn list" where
  "userMessages messages =
     map (\<lambda>m. \<lparr>turn_role = (if role m = Assistant then ''assistant'' else ''user''),
                turn_content = content m\<rparr>)
         (filter (\<lambda>m. role m \<noteq> System) messages)"

text \<open>\<open>options.tools.map(...)\<close>: reading \<open>t.function.name\<close> throws when \<open>t.function\<close> is
  missing.\<close>

definition anthropic_tool_of :: "runtime \<Rightarrow> jsval \<Rightarrow> js_error + anthropic_tool" where
  "anthropic_tool_of rt t =
     (case get_prop rt t ''function'' of
        Inl e \<Rightarrow> Inl e
      | Inr f \<Rightarrow>
          (case get_prop rt f ''name'' of
             Inl e \<Rightarrow> Inl e
           | Inr n \<Rightarrow>
               (case get_prop rt f ''description'' of
                  Inl e \<Rightarrow> Inl e
                | Inr d \<Rightarrow>
                    (case get_prop rt f ''parameters'' of
                       Inl e \<Rightarrow> Inl e
                     | Inr ps \<Rightarrow> Inr \<lparr>at_name = n, at_description = d, at_input_schema = ps\<rparr>))))"

fun map_anthropic_tools :: "runtime \<Rightarrow> jsval list \<Rightarrow> js_error + anthropic_tool list" where
  "map_anthropic_tools rt [] = Inr []"
| "map_anthropic_tools rt (t # ts) =
     (case anthropic_tool_of rt t of
        Inl e \<Rightarrow> Inl e
      | Inr a \<Rightarrow>
          (case map_anthropic_tools rt ts of
             Inl e \<Rightarrow> Inl e
           | Inr rest \<Rightarrow> Inr (a # rest)))"

fun is_text :: "content_block \<Rightarrow> bool" where
  "is_text (TextBlock t) = True"
| "is_text _ = False"

fun tool_use_calls :: "content_block list \<Rightarrow> ToolCall list" where
  "tool_use_calls [] = []"
| "tool_use_calls (ToolUseBlock i n inp # cs) =
     \<lparr>tc_id = i, tc_name = n, tc_arguments = inp\<rparr> # tool_use_calls cs"
| "tool_use_calls (_ # cs) = tool_use_calls cs"

definition anthropic_usage_of :: "anthropic_response \<Rightarrow> Usage" where
  "anthropic_usage_of response =
     \<lparr>promptTokens = input_tokens (an_usage response),
      completionTokens = output_tokens (an_usage response),
      totalTokens = input_tokens (an_usage response) + output_tokens (an_usage response)\<rparr>"

text \<open>The request built for \<open>anthropic.messages.create\<close>; building it throws when a tool
  definition cannot be translated.\<close>

definition anthropic_request_of :: "runtime \<Rightarrow> Message list \<Rightarrow> provider_options \<Rightarrow> js_error + anthropic_request" where
  "anthropic_request_of rt messages options =
     (case map_anthropic_tools rt (po_tools options) of
        Inl e \<Rightarrow> Inl e
      | Inr tools \<Rightarrow>
          Inr \<lparr>aq_model = po_model options,
               aq_system = systemMessage messages,
               aq_messages = userMessages messages,
               aq_tools = (if length tools > 0 then Some tools else None),
               aq_temperature = po_temperature options,
               aq_max_tokens = po_maxTokens options\<rparr>)"

definition chatAnthropic :: "runtime \<Rightarrow> providers \<Rightarrow> nat \<Rightarrow> Message list \<Rightarrow> provider_options \<Rightarrow> js_error + LLMResponse" where
  "chatAnthropic rt p n messages options =
     (case anthropic_request_of rt messages options of
        Inl e \<Rightarrow> Inl e
      | Inr request \<Rightarrow>
          (case anthropic_create p n request of
             Inl e \<Rightarrow> Inl e
           | Inr response \<Rightarrow>
               Inr \<lparr>resp_content =
                      (case find is_text (an_content response) of
                         Some (TextBlock t) \<Rightarrow> t
                       | _ \<Rightarrow> ''''),
                    toolCalls =
                      (if length (tool_use_calls (an_content response)) > 0
                       then Some (tool_use_calls (an_content response)) else None),
                    usage = anthropic_usage_of response,
                    resp_model = an_model response\<rparr>))"

subsection \<open>chat\<close>

text \<open>Routing by the prefix of the model identifier. The \<open>catch\<close> of \<open>chat\<close> logs and
  rethrows, so an exception of a branch is the exception of \<open>chat\<close>.\<close>

definition LLMClient_chat :: "runtime \<Rightarrow> providers \<Rightarrow> nat \<Rightarrow> Message list \<Rightarrow> chat_options \<Rightarrow> js_error + LLMResponse" where
  "LLMClient_chat rt p n messages options =
     (let model = (case opt_model options of None \<Rightarrow> defaultModel p | Some m \<Rightarrow> m);
          tools = (case opt_tools options of None \<Rightarrow> [] | Some ts \<Rightarrow> ts);
          temperature = (case opt_temperature options of None \<Rightarrow> 7 / 10 | Some t \<Rightarrow> t);
          maxTokens = (case opt_maxTokens options of None \<Rightarrow> 4096 | Some k \<Rightarrow> k);
          po = \<lparr>po_model = model, po_tools = tools, po_temperature = temperature, po_maxTokens = maxTokens\<rparr>
      in if startsWith model ''gpt-'' \<or> startsWith model ''o1-'' then chatOpenAI rt p n messages po
         else if startsWith model ''claude-'' then chatAnthropic rt p n messages po
         else Inl (Thrown (''Unsupported model: '' @ model)))"

section \<open>Execution engine (agents/react-engine.ts)\<close>

subsection \<open>Data model\<close>

datatype step_kind = Reasoning | Action | Observation | Final

record StepAction =
  tool :: string
  arguments :: jsval

record ExecutionStep =
  stepNumber :: int
  stepType :: step_kind
  reasoning :: "string option"
  action :: "StepAction option"
  observation :: "string option"
  timestamp :: int

datatype exec_status = Success | Error | Timeout | MaxIterations

record ExecutionResult =
  executionId :: string
  status :: exec_status
  output_text :: string
  steps :: "ExecutionStep list"
  tokensUsed :: int
  cost :: rat
  executionTimeMs :: int
  exec_error :: "string option"

record AgentTool =
  tool_id :: string
  tool_name :: string
  schema :: jsval

record AgentConfig =
  agent_id :: string
  systemPrompt :: string
  model :: string
  maxIterations :: int
  timeoutSeconds :: int
  tools :: "AgentTool list"

subsection \<open>The world the engine runs in\<close>

text \<open>
  Everything outside the engine is a parameter. \<open>now\<close> gives the clock readings in
  milliseconds, in the order they are taken (\<open>Date.now()\<close> and \<open>new Date()\<close>);
  \<open>db_query\<close> says for each database call, in order, whether it throws; \<open>chat\<close> is
  \<open>llmClient.chat\<close> and \<open>toolExecutor_execute\<close> is \<open>toolExecutor.execute\<close> as the engine
  sees them: a call that returns or throws. Logging has no effect on the run and is left
  out.
\<close>

record world =
  builtins :: runtime
  uuidv4 :: string
  now :: "nat \<Rightarrow> int"
  db_query :: "nat \<Rightarrow> js_error option"
  chat :: "nat \<Rightarrow> Message list \<Rightarrow> chat_options \<Rightarrow> js_error + LLMResponse"
  toolExecutor_execute :: "nat \<Rightarrow> string \<Rightarrow> jsval \<Rightarrow> js_error + ToolResult"

text \<open>
  The local variables of \<open>execute\<close>, and the number of calls made so far to each
  collaborator. \<open>cur_steps\<close> and \<open>cur_status\<close> are the locals \<open>steps\<close> and \<open>status\<close>.
\<close>

record run_state =
  startTime :: int
  cur_steps :: "ExecutionStep list"
  totalTokensUsed :: int
  totalCost :: rat
  messages :: "Message list"
  iteration :: int
  finalAnswer :: string
  cur_status :: exec_status
  db_calls :: nat
  clock_reads :: nat
  llm_calls :: nat
  tool_calls :: nat

text \<open>A piece of the engine either throws, with the state reached, or completes.\<close>

datatype 'a attempt = Threw js_error run_state | Ok 'a run_state

text \<open>One pass through the body of the \<open>while\<close> loop ends in an exception, in \<open>break\<close>,
  or at the end of the body.\<close>

datatype loop_exit = Abort js_error run_state | Break run_state | Continue run_state

definition read_clock :: "world \<Rightarrow> run_state \<Rightarrow> int \<times> run_state" where
  "read_clock w s = (now w (clock_reads s), s\<lparr>clock_reads := Suc (clock_reads s)\<rparr>)"

text \<open>\<open>await db.query(...)\<close>\<close>

definition db_call :: "world \<Rightarrow> run_state \<Rightarrow> unit attempt" where
  "db_call w s =
     (let s' = s\<lparr>db_calls := Suc (db_calls s)\<rparr>
      in case db_query w (db_calls s) of
           Some e \<Rightarrow> Threw e s'
         | None \<Rightarrow> Ok () s')"

text \<open>\<open>logStep\<close> is one \<open>INSERT\<close> into the step log.\<close>

definition logStep :: "world \<Rightarrow> run_state \<Rightarrow> unit attempt" where
  "logStep w s = db_call w s"

text \<open>\<open>steps.push({stepNumber: iteration, stepType, ..., timestamp: new Date()})\<close>\<close>

definition push_step ::
  "world \<Rightarrow> step_kind \<Rightarrow> string option \<Rightarrow> StepAction option \<Rightarrow> string option \<Rightarrow> run_state \<Rightarrow> run_state" where
  "push_step w kind r a ob s =
     (let (t, s1) = read_clock w s
      in s1\<lparr>cur_steps := cur_steps s1 @
              [\<lparr>stepNumber = iteration s, stepType = kind, reasoning = r, action = a,
                observation = ob, timestamp = t\<rparr>]\<rparr>)"

subsection \<open>Cost table\<close>

definition TOKEN_COSTS :: "(string \<times> rat \<times> rat) list" where
  "TOKEN_COSTS =
     [(''gpt-4-turbo-preview'', (1 / 100) / 1000, (3 / 100) / 1000),
      (''gpt-4'', (3 / 100) / 1000, (6 / 100) / 1000),
      (''gpt-3.5-turbo'', (5 / 10000) / 1000, (15 / 10000) / 1000),
      (''claude-3-opus-20240229'', (15 / 1000) / 1000, (75 / 1000) / 1000),
      (''claude-3-sonnet-20240229'', (3 / 1000) / 1000, (15 / 1000) / 1000),
      (''claude-3-haiku-20240307'', (25 / 100000) / 1000, (125 / 100000) / 1000)]"

definition default_costs :: "rat \<times> rat" where
  "default_costs = ((1 / 100) / 1000, (3 / 100) / 1000)"

text \<open>\<open>TOKEN_COSTS[model] || {input: 0.01 / 1000, output: 0.03 / 1000}\<close>, over exact
  rationals. The model identifiers that reach \<open>calculateCost\<close> have passed the gateway.\<close>

definition costs_of :: "string \<Rightarrow> rat \<times> rat" where
  "costs_of m = (case map_of TOKEN_COSTS m of Some c \<Rightarrow> c | None \<Rightarrow> default_costs)"

definition calculateCost :: "string \<Rightarrow> int \<Rightarrow> int \<Rightarrow> rat" where
  "calculateCost m p c = of_int p * fst (costs_of m) + of_int c * snd (costs_of m)"

subsection \<open>System prompt\<close>

definition nl :: string where
  "nl = [CHR 0x0A]"

text \<open>\<open>`- ${t.name}: ${JSON.parse(t.schema).function.description}`\<close>\<close>

definition tool_description :: "runtime \<Rightarrow> AgentTool \<Rightarrow> js_error + string" where
  "tool_description rt t =
     (case JSON_parse rt (schema t) of
        Inl e \<Rightarrow> Inl e
      | Inr v \<Rightarrow>
          (case get_prop rt v ''function'' of
             Inl e \<Rightarrow> Inl e
           | Inr f \<Rightarrow>
               (case get_prop rt f ''description'' of
                  Inl e \<Rightarrow> Inl e
                | Inr d \<Rightarrow> Inr (''- '' @ tool_name t @ '': '' @ String_of rt d))))"

fun tool_descriptions :: "runtime \<Rightarrow> AgentTool list \<Rightarrow> js_error + string list" where
  "tool_descriptions rt [] = Inr []"
| "tool_descriptions rt (t # ts) =
     (case tool_description rt t of
        Inl e \<Rightarrow> Inl e
      | Inr d \<Rightarrow>
          (case tool_descriptions rt ts of
             Inl e \<Rightarrow> Inl e
           | Inr ds \<Rightarrow> Inr (d # ds)))"

fun join :: "string \<Rightarrow> string list \<Rightarrow> string" where
  "join sep [] = ''''"
| "join sep [x] = x"
| "join sep (x # y # ys) = x @ sep @ join sep (y # ys)"

definition buildSystemPrompt :: "runtime \<Rightarrow> string \<Rightarrow> AgentTool list \<Rightarrow> js_error + string" where
  "buildSystemPrompt rt basePrompt ts =
     (case tool_descriptions rt ts of
        Inl e \<Rightarrow> Inl e
      | Inr ds \<Rightarrow>
          Inr (basePrompt @ nl @ nl @
               ''You are an AI agent using the ReAct (Reasoning + Acting) pattern. For each task:'' @ nl @ nl @
               ''1. **Reason**: Think step-by-step about what you need to do'' @ nl @
               ''2. **Act**: Use the appropriate tool if needed'' @ nl @
               ''3. **Observe**: Analyze the tool'' @ [CHR 0x27] @ ''s output'' @ nl @
               ''4. **Repeat**: Continue until you have the final answer'' @ nl @ nl @
               ''Available tools:'' @ nl @
               join nl ds @ nl @ nl @
               ''When you have the final answer, respond directly without calling any tools.'' @ nl @ nl @
               ''Always think carefully and explain your reasoning.''))"

text \<open>\<open>agentConfig.tools.map((t) => JSON.parse(t.schema))\<close>\<close>

fun parse_tools :: "runtime \<Rightarrow> AgentTool list \<Rightarrow> js_error + jsval list" where
  "parse_tools rt [] = Inr []"
| "parse_tools rt (t # ts) =
     (case JSON_parse rt (schema t) of
        Inl e \<Rightarrow> Inl e
      | Inr v \<Rightarrow>
          (case parse_tools rt ts of
             Inl e \<Rightarrow> Inl e
           | Inr vs \<Rightarrow> Inr (v # vs)))"

subsection \<open>One tool call\<close>

text \<open>The inner \<open>try\<close>/\<open>catch\<close> around the tool invocation: the observation is the
  serialised result, or the message of whatever was thrown behind \<open>Error: \<close>.\<close>

definition tool_observation :: "world \<Rightarrow> ToolCall \<Rightarrow> nat \<Rightarrow> string" where
  "tool_observation w toolCall n =
     (case toolExecutor_execute w n (tc_name toolCall) (tc_arguments toolCall) of
        Inl e \<Rightarrow> ''Error: '' @ message e
      | Inr result \<Rightarrow>
          (case JSON_stringify (builtins w) result of
             Inl e \<Rightarrow> ''Error: '' @ message e
           | Inr str \<Rightarrow> str))"

text \<open>The body of \<open>for (const toolCall of response.toolCalls)\<close>.\<close>

definition process_tool_call :: "world \<Rightarrow> LLMResponse \<Rightarrow> ToolCall \<Rightarrow> run_state \<Rightarrow> unit attempt" where
  "process_tool_call w response toolCall s =
     (let s1 = push_step w Reasoning (Some (resp_content response)) None None s
      in case logStep w s1 of
           Threw e s' \<Rightarrow> Threw e s'
         | Ok _ s2 \<Rightarrow>
             (let s3 = push_step w Action None
                         (Some \<lparr>tool = tc_name toolCall, arguments = tc_arguments toolCall\<rparr>) None s2
              in case logStep w s3 of
                   Threw e s' \<Rightarrow> Threw e s'
                 | Ok _ s4 \<Rightarrow>
                     (let obs = tool_observation w toolCall (tool_calls s4);
                          s5 = s4\<lparr>tool_calls := Suc (tool_calls s4)\<rparr>;
                          s6 = push_step w Observation None None (Some obs) s5
                      in case logStep w s6 of
                           Threw e s' \<Rightarrow> Threw e s'
                         | Ok _ s7 \<Rightarrow>
                             Ok () (s7\<lparr>messages := messages s7 @
                                       [\<lparr>role = Assistant, content = resp_content response, name = None\<rparr>,
                                        \<lparr>role = Function, content = obs, name = Some (tc_name toolCall)\<rparr>]\<rparr>))))"

fun process_tool_calls :: "world \<Rightarrow> LLMResponse \<Rightarrow> ToolCall list \<Rightarrow> run_state \<Rightarrow> unit attempt" where
  "process_tool_calls w response [] s = Ok () s"
| "process_tool_calls w response (toolCall # rest) s =
     (case process_tool_call w response toolCall s of
        Threw e s' \<Rightarrow> Threw e s'
      | Ok _ s' \<Rightarrow> process_tool_calls w response rest s')"

subsection \<open>The loop\<close>

text \<open>Lines 110 to 115: the usage of one response is added to the running totals.\<close>

definition add_usage :: "AgentConfig \<Rightarrow> LLMResponse \<Rightarrow> run_state \<Rightarrow> run_state" where
  "add_usage cfg response s =
     s\<lparr>totalTokensUsed := totalTokensUsed s + totalTokens (usage response),
       totalCost := totalCost s +
         calculateCost (model cfg) (promptTokens (usage response)) (completionTokens (usage response))\<rparr>"

text \<open>\<open>!response.toolCalls || response.toolCalls.length === 0\<close>\<close>

fun no_tool_calls :: "ToolCall list option \<Rightarrow> bool" where
  "no_tool_calls None = True"
| "no_tool_calls (Some tcs) = (length tcs = 0)"

fun calls_of :: "ToolCall list option \<Rightarrow> ToolCall list" where
  "calls_of None = []"
| "calls_of (Some tcs) = tcs"

text \<open>The body of the \<open>while\<close> loop, entered when \<open>iteration < maxIterations\<close>.\<close>

definition iteration_body :: "world \<Rightarrow> AgentConfig \<Rightarrow> jsval list \<Rightarrow> run_state \<Rightarrow> loop_exit" where
  "iteration_body w cfg ts s =
     (let s1 = s\<lparr>iteration := iteration s + 1\<rparr>;
          (t, s2) = read_clock w s1;
          elapsed = t - startTime s2
      in if elapsed > timeoutSeconds cfg * 1000
         then Break (s2\<lparr>cur_status := Timeout, finalAnswer := ''Execution timed out''\<rparr>)
         else
           (let s3 = s2\<lparr>llm_calls := Suc (llm_calls s2)\<rparr>
            in case chat w (llm_calls s2) (messages s2)
                      \<lparr>opt_model = Some (model cfg), opt_tools = Some ts,
                       opt_temperature = None, opt_maxTokens = None\<rparr> of
                 Inl e \<Rightarrow> Abort e s3
               | Inr response \<Rightarrow>
                   (let s4 = add_usage cfg response s3
                    in if no_tool_calls (toolCalls response)
                       then
                         (let s5 = push_step w Final (Some (resp_content response)) None None
                                     (s4\<lparr>finalAnswer := resp_content response\<rparr>)
                          in case logStep w s5 of
                               Threw e s' \<Rightarrow> Abort e s'
                             | Ok _ s6 \<Rightarrow> Break s6)
                       else
                         (case process_tool_calls w response (calls_of (toolCalls response)) s4 of
                            Threw e s' \<Rightarrow> Abort e s'
                          | Ok _ s5 \<Rightarrow> Continue s5))))"

text \<open>The iteration counter is changed by the loop header only.\<close>

lemma read_clock_fields [simp]:
  "iteration (snd (read_clock w s)) = iteration s"
  "cur_steps (snd (read_clock w s)) = cur_steps s"
  "totalCost (snd (read_clock w s)) = totalCost s"
  "totalTokensUsed (snd (read_clock w s)) = totalTokensUsed s"
  "messages (snd (read_clock w s)) = messages s"
  "startTime (snd (read_clock w s)) = startTime s"
  "cur_status (snd (read_clock w s)) = cur_status s"
  "finalAnswer (snd (read_clock w s)) = finalAnswer s"
  "db_calls (snd (read_clock w s)) = db_calls s"
  "llm_calls (snd (read_clock w s)) = llm_calls s"
  "tool_calls (snd (read_clock w s)) = tool_calls s"
  "clock_reads (snd (read_clock w s)) = Suc (clock_reads s)"
  "fst (read_clock w s) = now w (clock_reads s)"
  by (simp_all add: read_clock_def)

lemma push_step_fields [simp]:
  "iteration (push_step w k r a ob s) = iteration s"
  "totalCost (push_step w k r a ob s) = totalCost s"
  "totalTokensUsed (push_step w k r a ob s) = totalTokensUsed s"
  "messages (push_step w k r a ob s) = messages s"
  "startTime (push_step w k r a ob s) = startTime s"
  "cur_status (push_step w k r a ob s) = cur_status s"
  "finalAnswer (push_step w k r a ob s) = finalAnswer s"
  "db_calls (push_step w k r a ob s) = db_calls s"
  "llm_calls (push_step w k r a ob s) = llm_calls s"
  "tool_calls (push_step w k r a ob s) = tool_calls s"
  "clock_reads (push_step w k r a ob s) = Suc (clock_reads s)"
  "cur_steps (push_step w k r a ob s) = cur_steps s @
     [\<lparr>stepNumber = iteration s, stepType = k, reasoning = r, action = a, observation = ob,
       timestamp = now w (clock_reads s)\<rparr>]"
  by (simp_all add: push_step_def read_clock_def)

lemma db_call_cases:
  "db_call w s = (case db_query w (db_calls s) of
                    Some e \<Rightarrow> Threw e (s\<lparr>db_calls := Suc (db_calls s)\<rparr>)
                  | None \<Rightarrow> Ok () (s\<lparr>db_calls := Suc (db_calls s)\<rparr>))"
  by (simp add: db_call_def Let_def)

lemma process_tool_call_iteration:
  "process_tool_call w response tc s = Ok u s' \<Longrightarrow> iteration s' = iteration s"
  by (auto simp: process_tool_call_def logStep_def db_call_cases Let_def
           split: option.splits)

lemma process_tool_calls_iteration:
  "process_tool_calls w response tcs s = Ok u s' \<Longrightarrow> iteration s' = iteration s"
proof (induction tcs arbitrary: s)
  case Nil
  then show ?case by simp
next
  case (Cons tc tcs)
  then show ?case
    by (auto split: attempt.splits dest: process_tool_call_iteration)
qed

lemma iteration_body_Continue_iteration:
  "iteration_body w cfg ts s = Continue s' \<Longrightarrow> iteration s' = iteration s + 1"
  by (auto simp: iteration_body_def Let_def add_usage_def read_clock_def
           split: if_splits sum.splits attempt.splits prod.splits
           dest!: process_tool_calls_iteration)

text \<open>\<open>while (iteration < agentConfig.maxIterations) { ... }\<close>\<close>

function react_loop :: "world \<Rightarrow> AgentConfig \<Rightarrow> jsval list \<Rightarrow> run_state \<Rightarrow> unit attempt" where
  "react_loop w cfg ts s =
     (if iteration s < maxIterations cfg
      then (case iteration_body w cfg ts s of
              Abort e s' \<Rightarrow> Threw e s'
            | Break s' \<Rightarrow> Ok () s'
            | Continue s' \<Rightarrow> react_loop w cfg ts s')
      else Ok () s)"
  by pat_completeness auto
termination
  by (relation "measure (\<lambda>(w, cfg, ts, s). nat (maxIterations cfg - iteration s))")
     (auto dest: iteration_body_Continue_iteration)

declare react_loop.simps [simp del]

subsection \<open>execute\<close>

text \<open>The \<open>try\<close> block of \<open>execute\<close>.\<close>

definition try_block :: "world \<Rightarrow> AgentConfig \<Rightarrow> string \<Rightarrow> run_state \<Rightarrow> ExecutionResult attempt" where
  "try_block w cfg input s0 =
     (case db_call w s0 of
        Threw e s' \<Rightarrow> Threw e s'
      | Ok _ s1 \<Rightarrow>
          (case buildSystemPrompt (builtins w) (systemPrompt cfg) (tools cfg) of
             Inl e \<Rightarrow> Threw e s1
           | Inr prompt \<Rightarrow>
               (let s2 = s1\<lparr>messages := [\<lparr>role = System, content = prompt, name = None\<rparr>,
                                          \<lparr>role = User, content = input, name = None\<rparr>]\<rparr>
                in case parse_tools (builtins w) (tools cfg) of
                     Inl e \<Rightarrow> Threw e s2
                   | Inr ts \<Rightarrow>
                       (let s3 = s2\<lparr>iteration := 0, finalAnswer := '''', cur_status := Success\<rparr>
                        in case react_loop w cfg ts s3 of
                             Threw e s' \<Rightarrow> Threw e s'
                           | Ok _ s4 \<Rightarrow>
                               (let s5 = (if iteration s4 \<ge> maxIterations cfg \<and> cur_status s4 = Success
                                          then s4\<lparr>cur_status := MaxIterations,
                                                  finalAnswer := ''Maximum iterations reached without finding a final answer''\<rparr>
                                          else s4);
                                    (t, s6) = read_clock w s5;
                                    executionTimeMs = t - startTime s6
                                in case db_call w s6 of
                                     Threw e s' \<Rightarrow> Threw e s'
                                   | Ok _ s7 \<Rightarrow>
                                       (case db_call w s7 of
                                          Threw e s' \<Rightarrow> Threw e s'
                                        | Ok _ s8 \<Rightarrow>
                                            Ok \<lparr>executionId = uuidv4 w,
                                                status = cur_status s8,
                                                output_text = finalAnswer s8,
                                                steps = cur_steps s8,
                                                tokensUsed = totalTokensUsed s8,
                                                cost = totalCost s8,
                                                executionTimeMs = executionTimeMs,
                                                exec_error = None\<rparr> s8))))))"

definition initial_state :: "world \<Rightarrow> run_state" where
  "initial_state w =
     \<lparr>startTime = now w 0, cur_steps = [], totalTokensUsed = 0, totalCost = 0, messages = [],
      iteration = 0, finalAnswer = '''', cur_status = Success,
      db_calls = 0, clock_reads = 1, llm_calls = 0, tool_calls = 0\<rparr>"

text \<open>
  \<open>execute\<close> with the state it ends in. \<open>Inl\<close> is the rejection of the returned promise:
  the \<open>catch\<close> block awaits a database update of its own, outside any \<open>try\<close>.
\<close>

definition run_execute ::
  "world \<Rightarrow> AgentConfig \<Rightarrow> string \<Rightarrow> string \<Rightarrow> (js_error + ExecutionResult) \<times> run_state" where
  "run_execute w cfg input userId =
     (case try_block w cfg input (initial_state w) of
        Ok r s \<Rightarrow> (Inr r, s)
      | Threw e s \<Rightarrow>
          (let (t, s1) = read_clock w s;
               executionTimeMs = t - startTime s1
           in case db_call w s1 of
                Threw e' s2 \<Rightarrow> (Inl e', s2)
              | Ok _ s2 \<Rightarrow>
                  (Inr \<lparr>executionId = uuidv4 w,
                        status = Error,
                        output_text = '''',
                        steps = cur_steps s2,
                        tokensUsed = totalTokensUsed s2,
                        cost = totalCost s2,
                        executionTimeMs = executionTimeMs,
                        exec_error = Some (message e)\<rparr>, s2)))"

definition ReActEngine_execute :: "world \<Rightarrow> AgentConfig \<Rightarrow> string \<Rightarrow> string \<Rightarrow> js_error + ExecutionResult" where
  "ReActEngine_execute w cfg input userId = fst (run_execute w cfg input userId)"

section \<open>Example collaborators\<close>

text \<open>
  A small runtime and tool back-ends for the concrete runs below. The example
  \<open>JSON.parse\<close> accepts two texts, the empty object and one tool schema, and rejects
  every other value it is given here; the example \<open>JSON.stringify\<close> renders a result by
  its \<open>success\<close> flag.
\<close>

definition dq :: string where
  "dq = [CHR 0x22]"

definition search_schema_text :: string where
  "search_schema_text =
     ''{'' @ dq @ ''function'' @ dq @ '':{'' @ dq @ ''description'' @ dq @ '':'' @
     dq @ ''Search the web'' @ dq @ ''}}''"

definition search_schema :: jsval where
  "search_schema = JObj [(''function'', JObj [(''description'', JStr ''Search the web'')])]"

definition example_runtime :: runtime where
  "example_runtime =
     \<lparr>JSON_parse = (\<lambda>v. if v = JStr ''{}'' then Inr (JObj [])
                        else if v = JStr search_schema_text then Inr search_schema
                        else Inl (Thrown ''Unexpected token'')),
      JSON_stringify = (\<lambda>r. Inr (if success r then ''ok'' else ''failed'')),
      String_of = (\<lambda>v. case v of JStr s \<Rightarrow> s | _ \<Rightarrow> ''undefined''),
      TypeError_message = (\<lambda>v p. ''Cannot read properties of undefined'')\<rparr>"

definition example_backends :: tool_backends where
  "example_backends =
     \<lparr>webSearch = (\<lambda>q. Inr \<lparr>success = True, data = Some q, error = None\<rparr>),
      sendEmail = (\<lambda>to subject body. Inr \<lparr>success = True, data = Some to, error = None\<rparr>),
      databaseQuery = (\<lambda>q. Inr \<lparr>success = True, data = Some q, error = None\<rparr>),
      httpRequest = (\<lambda>args. Inl (Thrown ''fetch failed'')),
      slackNotify = (\<lambda>channel msg. Inr \<lparr>success = True, data = Some channel, error = None\<rparr>)\<rparr>"

text \<open>An OpenAI-style provider whose reported total differs from the sum of its parts,
  and an Anthropic-style provider.\<close>

definition example_providers :: providers where
  "example_providers =
     \<lparr>defaultModel = ''gpt-4-turbo-preview'',
      openai_create = (\<lambda>n rq. Inr \<lparr>choices = [\<lparr>oa_content = Some ''hello'', oa_tool_calls = None\<rparr>],
                                    oa_usage = Some \<lparr>prompt_tokens = 5, completion_tokens = 3, total_tokens = 9\<rparr>,
                                    oa_model = oq_model rq\<rparr>),
      anthropic_create = (\<lambda>n rq. Inr \<lparr>an_content = [TextBlock ''hello''],
                                       an_usage = \<lparr>input_tokens = 5, output_tokens = 3\<rparr>,
                                       an_model = aq_model rq\<rparr>)\<rparr>"

definition example_options :: provider_options where
  "example_options = \<lparr>po_model = ''gpt-4'', po_tools = [], po_temperature = 7 / 10, po_maxTokens = 4096\<rparr>"

definition example_claude_options :: provider_options where
  "example_claude_options =
     \<lparr>po_model = ''claude-3-opus-20240229'', po_tools = [], po_temperature = 7 / 10, po_maxTokens = 4096\<rparr>"

definition example_conversation :: "Message list" where
  "example_conversation =
     [\<lparr>role = System, content = ''Be brief.'', name = None\<rparr>,
      \<lparr>role = User, content = ''What is the weather?'', name = None\<rparr>,
      \<lparr>role = Assistant, content = ''Let me look.'', name = None\<rparr>,
      \<lparr>role = Function, content = ''sunny'', name = Some ''web_search''\<rparr>]"

definition example_openai_reply :: LLMResponse where
  "example_openai_reply =
     \<lparr>resp_content = ''hello'', toolCalls = None,
      usage = \<lparr>promptTokens = 5, completionTokens = 3, totalTokens = 9\<rparr>,
      resp_model = ''gpt-4''\<rparr>"

definition example_anthropic_request :: anthropic_request where
  "example_anthropic_request =
     \<lparr>aq_model = ''claude-3-opus-20240229'', aq_system = ''Be brief.'',
      aq_messages = [\<lparr>turn_role = ''user'', turn_content = ''What is the weather?''\<rparr>,
                     \<lparr>turn_role = ''assistant'', turn_content = ''Let me look.''\<rparr>,
                     \<lparr>turn_role = ''user'', turn_content = ''sunny''\<rparr>],
      aq_tools = None, aq_temperature = 7 / 10, aq_max_tokens = 4096\<rparr>"

definition example_anthropic_reply :: LLMResponse where
  "example_anthropic_reply =
     \<lparr>resp_content = ''hello'', toolCalls = None,
      usage = \<lparr>promptTokens = 5, completionTokens = 3, totalTokens = 8\<rparr>,
      resp_model = ''claude-3-opus-20240229''\<rparr>"

text \<open>A gateway that answers at once, without tool calls, and an engine world around it
  in which the database never fails and the clock advances by one millisecond per
  reading.\<close>

definition direct_answer :: LLMResponse where
  "direct_answer =
     \<lparr>resp_content = ''42'', toolCalls = None,
      usage = \<lparr>promptTokens = 5, completionTokens = 3, totalTokens = 8\<rparr>,
      resp_model = ''gpt-4''\<rparr>"

definition world_direct_answer :: world where
  "world_direct_answer =
     \<lparr>builtins = example_runtime, uuidv4 = ''exec-1'', now = (\<lambda>n. 1000 + int n),
      db_query = (\<lambda>n. None),
      chat = (\<lambda>n msgs opts. Inr direct_answer),
      toolExecutor_execute = (\<lambda>n. ToolExecutor_execute example_runtime example_backends)\<rparr>"

definition agent_one_iteration :: AgentConfig where
  "agent_one_iteration =
     \<lparr>agent_id = ''agent-1'', systemPrompt = ''Be brief.'', model = ''gpt-4'',
      maxIterations = 1, timeoutSeconds = 300, tools = []\<rparr>"

text \<open>The same world with an unreachable database: every query throws.\<close>

definition world_db_down :: world where
  "world_db_down = world_direct_answer\<lparr>db_query := (\<lambda>n. Some (Thrown ''connection refused''))\<rparr>"

text \<open>An agent with one attached tool; a gateway that asks for that tool on its first
  call and answers on every later call; a tool executor that throws.\<close>

definition agent_with_search :: AgentConfig where
  "agent_with_search =
     \<lparr>agent_id = ''agent-2'', systemPrompt = ''Be brief.'', model = ''gpt-4'',
      maxIterations = 3, timeoutSeconds = 300,
      tools = [\<lparr>tool_id = ''tool-1'', tool_name = ''web_search'', schema = JStr search_schema_text\<rparr>]\<rparr>"

definition search_call :: ToolCall where
  "search_call = \<lparr>tc_id = ''call-1'', tc_name = ''web_search'',
                  tc_arguments = JObj [(''query'', JStr ''weather'')]\<rparr>"

definition tool_call_reply :: LLMResponse where
  "tool_call_reply =
     \<lparr>resp_content = ''I will search.'', toolCalls = Some [search_call],
      usage = \<lparr>promptTokens = 7, completionTokens = 2, totalTokens = 9\<rparr>,
      resp_model = ''gpt-4''\<rparr>"

definition world_tool_throws :: world where
  "world_tool_throws =
     \<lparr>builtins = example_runtime, uuidv4 = ''exec-2'', now = (\<lambda>n. 1000 + int n),
      db_query = (\<lambda>n. None),
      chat = (\<lambda>n msgs opts. if n = 0 then Inr tool_call_reply else Inr direct_answer),
      toolExecutor_execute = (\<lambda>n toolName args. Inl (Thrown ''socket hang up''))\<rparr>"

text \<open>The same with a working tool executor and a step log that fails on its second
  write (the third database call of the run).\<close>

definition world_log_fails :: world where
  "world_log_fails =
     world_tool_throws
       \<lparr>db_query := (\<lambda>n. if n = 2 then Some (Thrown ''disk full'') else None),
        toolExecutor_execute := (\<lambda>n. ToolExecutor_execute example_runtime example_backends)\<rparr>"

text \<open>A zero timeout with a clock that does not advance, and an agent whose tool schema
  is not JSON.\<close>

definition agent_zero_timeout :: AgentConfig where
  "agent_zero_timeout =
     \<lparr>agent_id = ''agent-1'', systemPrompt = ''Be brief.'', model = ''gpt-4'',
      maxIterations = 2, timeoutSeconds = 0, tools = []\<rparr>"

definition world_frozen_clock :: world where
  "world_frozen_clock = world_direct_answer\<lparr>now := (\<lambda>n. 1000)\<rparr>"

definition agent_bad_schema :: AgentConfig where
  "agent_bad_schema =
     \<lparr>agent_id = ''agent-3'', systemPrompt = ''Be brief.'', model = ''gpt-4'',
      maxIterations = 10, timeoutSeconds = 300,
      tools = [\<lparr>tool_id = ''tool-1'', tool_name = ''web_search'', schema = JStr ''{not json''\<rparr>]\<rparr>"

text \<open>The result of the run in which the step log fails after the action step.\<close>

definition dangling_result :: ExecutionResult where
  "dangling_result =
     \<lparr>executionId = ''exec-2'', status = Error, output_text = '''',
      steps = [\<lparr>stepNumber = 1, stepType = Reasoning, reasoning = Some ''I will search.'',
                action = None, observation = None, timestamp = 1002\<rparr>,
               \<lparr>stepNumber = 1, stepType = Action, reasoning = None,
                action = Some \<lparr>tool = ''web_search'', arguments = JObj [(''query'', JStr ''weather'')]\<rparr>,
                observation = None, timestamp = 1003\<rparr>],
      tokensUsed = 9, cost = 33 / 100000, executionTimeMs = 4,
      exec_error = Some ''disk full''\<rparr>"

definition zero_timeout_result :: ExecutionResult where
  "zero_timeout_result =
     \<lparr>executionId = ''exec-1'', status = Success, output_text = ''42'',
      steps = [\<lparr>stepNumber = 1, stepType = Final, reasoning = Some ''42'', action = None,
                observation = None, timestamp = 1000\<rparr>],
      tokensUsed = 8, cost = 33 / 100000, executionTimeMs = 0, exec_error = None\<rparr>"

text \<open>The options with which the engine would call the gateway for a \<open>gpt-4\<close> agent
  without tools.\<close>

definition example_chat_options :: chat_options where
  "example_chat_options =
     \<lparr>opt_model = Some ''gpt-4'', opt_tools = None, opt_temperature = None, opt_maxTokens = None\<rparr>"

text \<open>A database that accepts the insert of the execution record and then loses its
  connection: the second query of the run throws.\<close>

definition world_update_fails :: world where
  "world_update_fails =
     world_direct_answer
       \<lparr>db_query := (\<lambda>n. if n = 1 then Some (Thrown ''connection lost'') else None)\<rparr>"



text \<open>The result of the run in which the tool throws and every database call succeeds.\<close>

definition tool_throws_result :: ExecutionResult where
  "tool_throws_result =
     \<lparr>executionId = ''exec-2'', status = Success, output_text = ''42'',
      steps = [\<lparr>stepNumber = 1, stepType = Reasoning, reasoning = Some ''I will search.'',
                action = None, observation = None, timestamp = 1002\<rparr>,
               \<lparr>stepNumber = 1, stepType = Action, reasoning = None,
                action = Some \<lparr>tool = ''web_search'', arguments = JObj [(''query'', JStr ''weather'')]\<rparr>,
                observation = None, timestamp = 1003\<rparr>,
               \<lparr>stepNumber = 1, stepType = Observation, reasoning = None, action = None,
                observation = Some ''Error: socket hang up'', timestamp = 1004\<rparr>,
               \<lparr>stepNumber = 2, stepType = Final, reasoning = Some ''42'', action = None,
                observation = None, timestamp = 1006\<rparr>],
      tokensUsed = 17, cost = 66 / 100000, executionTimeMs = 7, exec_error = None\<rparr>"

section \<open>Properties named by the specification, and notions to state them\<close>

text \<open>"total = sum of the two": the usage counters of a response add up.\<close>

definition usage_consistent :: "Usage \<Rightarrow> bool" where
  "usage_consistent u = (totalTokens u = promptTokens u + completionTokens u)"

text \<open>The state a piece of the engine ends in, whichever way it ends.\<close>

fun state_of :: "'a attempt \<Rightarrow> run_state" where
  "state_of (Threw e s) = s"
| "state_of (Ok x s) = s"

fun exit_state :: "loop_exit \<Rightarrow> run_state" where
  "exit_state (Abort e s) = s"
| "exit_state (Break s) = s"
| "exit_state (Continue s) = s"

text \<open>
  The ordering of a step trace, in the words of the specification: step numbers never
  decrease, and the steps that share a number (the sub-steps of one iteration) are
  either a single \<open>final\<close> step or a sequence of reasoning, action, observation
  triples, so that every action is directly followed by its observation.
\<close>

fun rao_blocks :: "step_kind list \<Rightarrow> bool" where
  "rao_blocks [] = True"
| "rao_blocks (Reasoning # Action # Observation # ks) = rao_blocks ks"
| "rao_blocks _ = False"

definition iteration_kinds_ok :: "step_kind list \<Rightarrow> bool" where
  "iteration_kinds_ok ks = (ks = [Final] \<or> rao_blocks ks)"

definition steps_numbered :: "int \<Rightarrow> ExecutionStep list \<Rightarrow> ExecutionStep list" where
  "steps_numbered n xs = filter (\<lambda>x. stepNumber x = n) xs"

definition trace_ordered :: "ExecutionStep list \<Rightarrow> bool" where
  "trace_ordered xs =
     (sorted (map stepNumber xs)
      \<and> (\<forall>n\<in>set (map stepNumber xs). iteration_kinds_ok (map stepType (steps_numbered n xs))))"

text \<open>The invariant of the loop: the trace so far is ordered and no step is numbered
  beyond the current iteration.\<close>

definition trace_inv :: "run_state \<Rightarrow> bool" where
  "trace_inv s = (trace_ordered (cur_steps s) \<and> (\<forall>x\<in>set (cur_steps s). stepNumber x \<le> iteration s))"

text \<open>The state in which the loop is entered, once the execution record is inserted and
  the system prompt is built.\<close>

definition loop_entry :: "world \<Rightarrow> string \<Rightarrow> string \<Rightarrow> run_state" where
  "loop_entry w prompt input =
     (initial_state w)\<lparr>db_calls := 1,
        messages := [\<lparr>role = System, content = prompt, name = None\<rparr>,
                     \<lparr>role = User, content = input, name = None\<rparr>]\<rparr>"

text \<open>
  The steps and messages an iteration is expected to record for the tool calls of its
  response: for each call, in order, a reasoning step with the response text, an action
  step with the tool name and arguments and an observation step with the outcome of the
  invocation, all numbered \<open>num\<close>; and an assistant message with the response text
  followed by a tool-result message with the observation and the tool name. \<open>c\<close> is the
  number of the next clock reading and \<open>t\<close> the number of the next tool invocation.
\<close>

definition call_steps :: "world \<Rightarrow> LLMResponse \<Rightarrow> ToolCall \<Rightarrow> int \<Rightarrow> nat \<Rightarrow> nat \<Rightarrow> ExecutionStep list" where
  "call_steps w response toolCall num c t =
     [\<lparr>stepNumber = num, stepType = Reasoning, reasoning = Some (resp_content response),
       action = None, observation = None, timestamp = now w c\<rparr>,
      \<lparr>stepNumber = num, stepType = Action, reasoning = None,
       action = Some \<lparr>tool = tc_name toolCall, arguments = tc_arguments toolCall\<rparr>,
       observation = None, timestamp = now w (Suc c)\<rparr>,
      \<lparr>stepNumber = num, stepType = Observation, reasoning = None, action = None,
       observation = Some (tool_observation w toolCall t), timestamp = now w (Suc (Suc c))\<rparr>]"

definition call_messages :: "world \<Rightarrow> LLMResponse \<Rightarrow> ToolCall \<Rightarrow> nat \<Rightarrow> Message list" where
  "call_messages w response toolCall t =
     [\<lparr>role = Assistant, content = resp_content response, name = None\<rparr>,
      \<lparr>role = Function, content = tool_observation w toolCall t, name = Some (tc_name toolCall)\<rparr>]"

fun calls_steps :: "world \<Rightarrow> LLMResponse \<Rightarrow> ToolCall list \<Rightarrow> int \<Rightarrow> nat \<Rightarrow> nat \<Rightarrow> ExecutionStep list" where
  "calls_steps w response [] num c t = []"
| "calls_steps w response (toolCall # rest) num c t =
     call_steps w response toolCall num c t @ calls_steps w response rest num (c + 3) (Suc t)"

fun calls_messages :: "world \<Rightarrow> LLMResponse \<Rightarrow> ToolCall list \<Rightarrow> nat \<Rightarrow> Message list" where
  "calls_messages w response [] t = []"
| "calls_messages w response (toolCall # rest) t =
     call_messages w response toolCall t @ calls_messages w response rest (Suc t)"

text \<open>
  A trace that was cut off: an ordered trace, possibly followed by the reasoning step, or
  the reasoning and action steps, of one more tool call whose observation is missing.
\<close>

definition cut_trace :: "ExecutionStep list \<Rightarrow> bool" where
  "cut_trace xs =
     (trace_ordered xs
      \<or> (xs \<noteq> [] \<and> stepType (last xs) = Reasoning \<and> trace_ordered (butlast xs))
      \<or> (2 \<le> length xs \<and> stepType (last xs) = Action
           \<and> stepType (last (butlast xs)) = Reasoning
           \<and> stepNumber (last (butlast xs)) = stepNumber (last xs)
           \<and> trace_ordered (butlast (butlast xs))))"

text \<open>The kinds of the steps of a tool call whose processing a failing write to the step
  log interrupted before the observation was recorded.\<close>

definition dangling :: "step_kind list \<Rightarrow> bool" where
  "dangling ks = (ks = [] \<or> ks = [Reasoning] \<or> ks = [Reasoning, Action])"

text \<open>The trace with which the loop may end in an exception \<open>e\<close>: its numbers do not
  decrease, it is an ordered trace that may be cut off, it is cut off only when \<open>e\<close> was
  thrown by a database call, and \<open>e\<close> was thrown by a database call or by the gateway.\<close>

definition aborted :: "world \<Rightarrow> js_error \<Rightarrow> ExecutionStep list \<Rightarrow> bool" where
  "aborted w e xs =
     (sorted (map stepNumber xs) \<and> cut_trace xs
      \<and> (\<not> trace_ordered xs \<longrightarrow> (\<exists>n. db_query w n = Some e))
      \<and> ((\<exists>n. db_query w n = Some e) \<or> (\<exists>n msgs opts. chat w n msgs opts = Inl e)))"

section \<open>Basic facts about the engine\<close>

lemma logStep_cases:
  "logStep w s = (case db_query w (db_calls s) of
                    Some e \<Rightarrow> Threw e (s\<lparr>db_calls := Suc (db_calls s)\<rparr>)
                  | None \<Rightarrow> Ok () (s\<lparr>db_calls := Suc (db_calls s)\<rparr>))"
  by (simp add: logStep_def db_call_def Let_def)

lemma costs_of_nonneg: "0 \<le> fst (costs_of m) \<and> 0 \<le> snd (costs_of m)"
  by (simp add: costs_of_def TOKEN_COSTS_def default_costs_def)

lemma calculateCost_nonneg: "0 \<le> p \<Longrightarrow> 0 \<le> c \<Longrightarrow> 0 \<le> calculateCost m p c"
  using costs_of_nonneg [of m] by (simp add: calculateCost_def)

text \<open>Processing tool calls leaves the running cost alone, however it ends.\<close>

lemma process_tool_call_totalCost:
  "totalCost (state_of (process_tool_call w response tc s)) = totalCost s"
  by (simp add: process_tool_call_def logStep_cases Let_def split: option.splits)

lemma process_tool_calls_totalCost:
  "totalCost (state_of (process_tool_calls w response tcs s)) = totalCost s"
proof (induction tcs arbitrary: s)
  case Nil
  then show ?case by simp
next
  case (Cons tc tcs)
  show ?case
  proof (cases "process_tool_call w response tc s")
    case (Threw e s')
    with process_tool_call_totalCost [of w response tc s] show ?thesis by simp
  next
    case (Ok u s')
    with process_tool_call_totalCost [of w response tc s] Cons.IH [of s'] show ?thesis by simp
  qed
qed

section \<open>Ordered step traces\<close>

lemma trace_ordered_Nil: "trace_ordered []"
  by (simp add: trace_ordered_def)

lemma steps_numbered_append: "steps_numbered n (xs @ ys) = steps_numbered n xs @ steps_numbered n ys"
  by (simp add: steps_numbered_def)

lemma steps_numbered_other: "\<forall>x\<in>set xs. stepNumber x \<noteq> n \<Longrightarrow> steps_numbered n xs = []"
  by (simp add: steps_numbered_def)

lemma steps_numbered_same: "\<forall>x\<in>set xs. stepNumber x = n \<Longrightarrow> steps_numbered n xs = xs"
  by (simp add: steps_numbered_def)

lemma trace_ordered_append_block:
  assumes old: "trace_ordered old"
      and below: "\<forall>x\<in>set old. stepNumber x < n"
      and same: "\<forall>x\<in>set blk. stepNumber x = n"
      and kinds: "iteration_kinds_ok (map stepType blk)"
  shows "trace_ordered (old @ blk)"
proof -
  have s1: "sorted (map stepNumber old)" using old by (simp add: trace_ordered_def)
  have s2: "sorted (map stepNumber blk)"
    using same by (induction blk) auto
  have "sorted (map stepNumber (old @ blk))"
    using s1 s2 below same by (auto simp: sorted_append)
  moreover have "iteration_kinds_ok (map stepType (steps_numbered m (old @ blk)))"
    if m: "m \<in> set (map stepNumber (old @ blk))" for m
  proof (cases "m = n")
    case True
    have "steps_numbered n old = []"
      using below by (intro steps_numbered_other) auto
    with True same kinds show ?thesis
      by (simp add: steps_numbered_append steps_numbered_same)
  next
    case False
    with m same have mo: "m \<in> set (map stepNumber old)" by auto
    have "steps_numbered m blk = []"
      using same False by (intro steps_numbered_other) auto
    moreover from old mo have "iteration_kinds_ok (map stepType (steps_numbered m old))"
      unfolding trace_ordered_def by blast
    ultimately show ?thesis
      by (simp add: steps_numbered_append)
  qed
  ultimately show ?thesis by (simp add: trace_ordered_def)
qed

text \<open>An iteration that adds a block of well-formed steps keeps the invariant.\<close>

lemma trace_inv_extend:
  assumes inv: "trace_inv s"
      and steps: "cur_steps s' = cur_steps s @ blk"
      and it: "iteration s' = iteration s + 1"
      and same: "\<forall>x\<in>set blk. stepNumber x = iteration s + 1"
      and kinds: "iteration_kinds_ok (map stepType blk)"
  shows "trace_inv s'"
proof -
  from inv have below: "\<forall>x\<in>set (cur_steps s). stepNumber x < iteration s + 1"
    by (auto simp: trace_inv_def)
  from inv have "trace_ordered (cur_steps s)" by (simp add: trace_inv_def)
  from trace_ordered_append_block [OF this below same kinds]
  have "trace_ordered (cur_steps s')" by (simp add: steps)
  moreover have "\<forall>x\<in>set (cur_steps s'). stepNumber x \<le> iteration s'"
    using below same by (auto simp: steps it)
  ultimately show ?thesis by (simp add: trace_inv_def)
qed

section \<open>Tool schemas and the entry of the loop\<close>

lemma parse_tools_of_descriptions:
  "tool_descriptions rt ts = Inr ds \<Longrightarrow> \<exists>vs. parse_tools rt ts = Inr vs"
proof (induction ts arbitrary: ds)
  case Nil
  then show ?case by simp
next
  case (Cons t ts)
  from Cons.prems obtain d ds' where d: "tool_description rt t = Inr d"
    and ds': "tool_descriptions rt ts = Inr ds'"
    by (auto split: sum.splits)
  from d obtain v where v: "JSON_parse rt (schema t) = Inr v"
    by (auto simp: tool_description_def split: sum.splits)
  from Cons.IH [OF ds'] obtain vs where "parse_tools rt ts = Inr vs" by blast
  with v show ?case by simp
qed

lemma tool_descriptions_bad_schema:
  "t \<in> set ts \<Longrightarrow> JSON_parse rt (schema t) = Inl e \<Longrightarrow> \<exists>e'. tool_descriptions rt ts = Inl e'"
proof (induction ts)
  case Nil
  then show ?case by simp
next
  case (Cons a ts)
  show ?case
  proof (cases "tool_description rt a")
    case (Inl e1)
    then show ?thesis by simp
  next
    case (Inr d)
    then have "JSON_parse rt (schema a) \<noteq> Inl e"
      by (auto simp: tool_description_def split: sum.splits)
    with Cons.prems have "t \<in> set ts" by auto
    from Cons.IH [OF this Cons.prems(2)] obtain e' where "tool_descriptions rt ts = Inl e'" by blast
    with Inr show ?thesis by simp
  qed
qed

lemma trace_inv_loop_entry: "trace_inv (loop_entry w prompt input)"
  by (simp add: trace_inv_def loop_entry_def initial_state_def trace_ordered_Nil)

section \<open>What an iteration records\<close>

lemma process_tool_call_exact:
  assumes db: "db_query w (db_calls s) = None" "db_query w (Suc (db_calls s)) = None"
              "db_query w (Suc (Suc (db_calls s))) = None"
  shows "\<exists>s'. process_tool_call w response tc s = Ok () s'
           \<and> cur_steps s' = cur_steps s @ call_steps w response tc (iteration s) (clock_reads s) (tool_calls s)
           \<and> messages s' = messages s @ call_messages w response tc (tool_calls s)
           \<and> iteration s' = iteration s \<and> cur_status s' = cur_status s
           \<and> finalAnswer s' = finalAnswer s \<and> startTime s' = startTime s
           \<and> totalTokensUsed s' = totalTokensUsed s \<and> totalCost s' = totalCost s
           \<and> clock_reads s' = clock_reads s + 3 \<and> db_calls s' = db_calls s + 3
           \<and> tool_calls s' = Suc (tool_calls s) \<and> llm_calls s' = llm_calls s"
  by (simp add: process_tool_call_def logStep_cases db Let_def call_steps_def call_messages_def)

lemma process_tool_calls_exact:
  assumes db: "\<forall>k < 3 * length tcs. db_query w (db_calls s + k) = None"
  shows "\<exists>s'. process_tool_calls w response tcs s = Ok () s'
           \<and> cur_steps s' = cur_steps s @ calls_steps w response tcs (iteration s) (clock_reads s) (tool_calls s)
           \<and> messages s' = messages s @ calls_messages w response tcs (tool_calls s)
           \<and> iteration s' = iteration s \<and> cur_status s' = cur_status s
           \<and> finalAnswer s' = finalAnswer s \<and> startTime s' = startTime s
           \<and> totalTokensUsed s' = totalTokensUsed s \<and> totalCost s' = totalCost s
           \<and> clock_reads s' = clock_reads s + 3 * length tcs
           \<and> db_calls s' = db_calls s + 3 * length tcs
           \<and> tool_calls s' = tool_calls s + length tcs \<and> llm_calls s' = llm_calls s"
  using db
proof (induction tcs arbitrary: s)
  case Nil
  then show ?case by simp
next
  case (Cons tc tcs)
  have p: "\<And>k. k < 3 \<Longrightarrow> db_query w (db_calls s + k) = None"
    using Cons.prems by simp
  from p [of 0] have d0: "db_query w (db_calls s) = None" by simp
  from p [of 1] have d1: "db_query w (Suc (db_calls s)) = None" by simp
  from p [of 2] have d2: "db_query w (Suc (Suc (db_calls s))) = None" by simp
  from process_tool_call_exact [of w s response tc] d0 d1 d2
  obtain s1 where 1: "process_tool_call w response tc s = Ok () s1"
    and f1: "cur_steps s1 = cur_steps s @ call_steps w response tc (iteration s) (clock_reads s) (tool_calls s)"
            "messages s1 = messages s @ call_messages w response tc (tool_calls s)"
            "iteration s1 = iteration s" "cur_status s1 = cur_status s"
            "finalAnswer s1 = finalAnswer s" "startTime s1 = startTime s"
            "totalTokensUsed s1 = totalTokensUsed s" "totalCost s1 = totalCost s"
            "clock_reads s1 = clock_reads s + 3" "db_calls s1 = db_calls s + 3"
            "tool_calls s1 = Suc (tool_calls s)" "llm_calls s1 = llm_calls s"
    by auto
  have "\<forall>k < 3 * length tcs. db_query w (db_calls s1 + k) = None"
  proof (intro allI impI)
    fix k assume "k < 3 * length tcs"
    then have "3 + k < 3 * length (tc # tcs)" by simp
    with Cons.prems have "db_query w (db_calls s + (3 + k)) = None" by blast
    then show "db_query w (db_calls s1 + k) = None" by (simp add: f1 add.assoc)
  qed
  from Cons.IH [OF this]
  obtain s' where 2: "process_tool_calls w response tcs s1 = Ok () s'"
    and f2: "cur_steps s' = cur_steps s1 @ calls_steps w response tcs (iteration s1) (clock_reads s1) (tool_calls s1)"
            "messages s' = messages s1 @ calls_messages w response tcs (tool_calls s1)"
            "iteration s' = iteration s1" "cur_status s' = cur_status s1"
            "finalAnswer s' = finalAnswer s1" "startTime s' = startTime s1"
            "totalTokensUsed s' = totalTokensUsed s1" "totalCost s' = totalCost s1"
            "clock_reads s' = clock_reads s1 + 3 * length tcs"
            "db_calls s' = db_calls s1 + 3 * length tcs"
            "tool_calls s' = tool_calls s1 + length tcs" "llm_calls s' = llm_calls s1"
    by blast
  have "process_tool_calls w response (tc # tcs) s = Ok () s'" using 1 2 by simp
  then show ?case
    using f1 f2 by simp
qed

lemma calls_steps_kinds:
  "map stepType (calls_steps w response tcs num c t) =
     concat (replicate (length tcs) [Reasoning, Action, Observation])"
  by (induction tcs arbitrary: c t) (simp_all add: call_steps_def)



lemma iteration_body_tool_calls_exact:
  assumes nt: "\<not> now w (clock_reads s) - startTime s > timeoutSeconds cfg * 1000"
      and resp: "chat w (llm_calls s) (messages s)
                    \<lparr>opt_model = Some (model cfg), opt_tools = Some ts,
                     opt_temperature = None, opt_maxTokens = None\<rparr> = Inr response"
      and calls: "\<not> no_tool_calls (toolCalls response)"
      and db: "\<forall>k < 3 * length (calls_of (toolCalls response)). db_query w (db_calls s + k) = None"
  shows "\<exists>s1. iteration_body w cfg ts s = Continue s1
           \<and> cur_steps s1 = cur_steps s @
                 calls_steps w response (calls_of (toolCalls response)) (iteration s + 1)
                   (Suc (clock_reads s)) (tool_calls s)
           \<and> messages s1 = messages s @
                 calls_messages w response (calls_of (toolCalls response)) (tool_calls s)
           \<and> iteration s1 = iteration s + 1 \<and> cur_status s1 = cur_status s
           \<and> finalAnswer s1 = finalAnswer s \<and> llm_calls s1 = Suc (llm_calls s)
           \<and> totalTokensUsed s1 = totalTokensUsed s + totalTokens (usage response)"
proof -
  let ?s4 = "add_usage cfg response
               (s\<lparr>iteration := iteration s + 1, clock_reads := Suc (clock_reads s),
                  llm_calls := Suc (llm_calls s)\<rparr>)"
  have "\<forall>k < 3 * length (calls_of (toolCalls response)). db_query w (db_calls ?s4 + k) = None"
    using db by (simp add: add_usage_def)
  from process_tool_calls_exact [OF this, of response]
  obtain s' where p: "process_tool_calls w response (calls_of (toolCalls response)) ?s4 = Ok () s'"
    and f: "cur_steps s' = cur_steps ?s4 @ calls_steps w response (calls_of (toolCalls response))
                              (iteration ?s4) (clock_reads ?s4) (tool_calls ?s4)"
           "messages s' = messages ?s4 @ calls_messages w response (calls_of (toolCalls response)) (tool_calls ?s4)"
           "iteration s' = iteration ?s4" "cur_status s' = cur_status ?s4"
           "finalAnswer s' = finalAnswer ?s4" "llm_calls s' = llm_calls ?s4"
           "totalTokensUsed s' = totalTokensUsed ?s4"
    by blast
  from nt resp calls p have "iteration_body w cfg ts s = Continue s'"
    by (simp add: iteration_body_def read_clock_def Let_def)
  with f show ?thesis by (simp add: add_usage_def)
qed

lemma iteration_body_final_exact:
  assumes nt: "\<not> now w (clock_reads s) - startTime s > timeoutSeconds cfg * 1000"
      and resp: "chat w (llm_calls s) (messages s)
                    \<lparr>opt_model = Some (model cfg), opt_tools = Some ts,
                     opt_temperature = None, opt_maxTokens = None\<rparr> = Inr response"
      and calls: "no_tool_calls (toolCalls response)"
  shows "cur_steps (exit_state (iteration_body w cfg ts s)) = cur_steps s @
           [\<lparr>stepNumber = iteration s + 1, stepType = Final,
             reasoning = Some (resp_content response), action = None, observation = None,
             timestamp = now w (Suc (clock_reads s))\<rparr>]
       \<and> finalAnswer (exit_state (iteration_body w cfg ts s)) = resp_content response
       \<and> messages (exit_state (iteration_body w cfg ts s)) = messages s
       \<and> cur_status (exit_state (iteration_body w cfg ts s)) = cur_status s
       \<and> (db_query w (db_calls s) = None \<longrightarrow>
             (\<exists>s1. iteration_body w cfg ts s = Break s1))
       \<and> (\<forall>e. db_query w (db_calls s) = Some e \<longrightarrow>
             (\<exists>s1. iteration_body w cfg ts s = Abort e s1))"
  using assms
  by (simp add: iteration_body_def read_clock_def Let_def logStep_cases add_usage_def
        split: option.splits)

lemma iteration_body_no_step:
  shows "(now w (clock_reads s) - startTime s > timeoutSeconds cfg * 1000 \<longrightarrow>
            (\<exists>s1. iteration_body w cfg ts s = Break s1 \<and> cur_steps s1 = cur_steps s
                  \<and> messages s1 = messages s \<and> cur_status s1 = Timeout
                  \<and> finalAnswer s1 = ''Execution timed out'' \<and> llm_calls s1 = llm_calls s))
       \<and> (\<forall>e. \<not> now w (clock_reads s) - startTime s > timeoutSeconds cfg * 1000
               \<and> chat w (llm_calls s) (messages s)
                    \<lparr>opt_model = Some (model cfg), opt_tools = Some ts,
                     opt_temperature = None, opt_maxTokens = None\<rparr> = Inl e \<longrightarrow>
            (\<exists>s1. iteration_body w cfg ts s = Abort e s1 \<and> cur_steps s1 = cur_steps s
                  \<and> messages s1 = messages s))"
  by (simp add: iteration_body_def read_clock_def Let_def)

section \<open>The step trace of a run that a failing write cuts off\<close>

lemma cut_trace_intro:
  assumes "trace_ordered ys" and "dangling (map stepType dg)"
      and "\<forall>x\<in>set dg. stepNumber x = n"
  shows "cut_trace (ys @ dg)"
proof -
  from assms(2) consider "dg = []" | r where "dg = [r]" "stepType r = Reasoning"
    | r a where "dg = [r, a]" "stepType r = Reasoning" "stepType a = Action"
    by (auto simp: dangling_def)
  then show ?thesis
  proof cases
    case 1
    with assms(1) show ?thesis by (simp add: cut_trace_def)
  next
    case 2
    with assms(1) show ?thesis by (simp add: cut_trace_def)
  next
    case 3
    with assms(1,3) show ?thesis by (simp add: cut_trace_def butlast_append)
  qed
qed

lemma cut_trace_complete:
  assumes "cut_trace xs"
      and "xs = [] \<or> stepType (last xs) = Observation \<or> stepType (last xs) = Final"
  shows "trace_ordered xs"
  using assms by (auto simp: cut_trace_def)

text \<open>Processing a tool call, however it ends.\<close>

lemma process_tool_call_any:
  "\<exists>blk. cur_steps (state_of (process_tool_call w response tc s)) = cur_steps s @ blk
      \<and> (\<forall>x\<in>set blk. stepNumber x = iteration s)
      \<and> iteration (state_of (process_tool_call w response tc s)) = iteration s
      \<and> (case process_tool_call w response tc s of
            Ok u s' \<Rightarrow> map stepType blk = [Reasoning, Action, Observation]
          | Threw e s' \<Rightarrow>
              (map stepType blk = [Reasoning] \<or> map stepType blk = [Reasoning, Action]
                 \<or> map stepType blk = [Reasoning, Action, Observation])
              \<and> (\<exists>n. db_query w n = Some e))"
  by (auto simp: process_tool_call_def logStep_cases Let_def split: option.splits)

lemma process_tool_calls_any:
  "\<exists>blk dg. cur_steps (state_of (process_tool_calls w response tcs s)) = cur_steps s @ blk @ dg
      \<and> (\<forall>x\<in>set (blk @ dg). stepNumber x = iteration s)
      \<and> rao_blocks (map stepType blk)
      \<and> dangling (map stepType dg)
      \<and> iteration (state_of (process_tool_calls w response tcs s)) = iteration s
      \<and> (case process_tool_calls w response tcs s of
            Ok u s' \<Rightarrow> dg = []
          | Threw e s' \<Rightarrow> (\<exists>n. db_query w n = Some e))"
proof (induction tcs arbitrary: s)
  case Nil
  show ?case by (simp add: dangling_def)
next
  case (Cons tc tcs)
  from process_tool_call_any [of w response tc s]
  obtain b1 where b1: "cur_steps (state_of (process_tool_call w response tc s)) = cur_steps s @ b1"
    and n1: "\<forall>x\<in>set b1. stepNumber x = iteration s"
    and i1: "iteration (state_of (process_tool_call w response tc s)) = iteration s"
    and c1: "case process_tool_call w response tc s of
            Ok u s' \<Rightarrow> map stepType b1 = [Reasoning, Action, Observation]
          | Threw e s' \<Rightarrow>
              (map stepType b1 = [Reasoning] \<or> map stepType b1 = [Reasoning, Action]
                 \<or> map stepType b1 = [Reasoning, Action, Observation])
              \<and> (\<exists>n. db_query w n = Some e)"
    by blast
  show ?case
  proof (cases "process_tool_call w response tc s")
    case (Threw e s1)
    with c1 have k: "map stepType b1 = [Reasoning] \<or> map stepType b1 = [Reasoning, Action]
                 \<or> map stepType b1 = [Reasoning, Action, Observation]"
      and e: "\<exists>n. db_query w n = Some e" by simp_all
    from Threw b1 i1 have st: "cur_steps s1 = cur_steps s @ b1" "iteration s1 = iteration s" by simp_all
    from k show ?thesis
    proof (elim disjE)
      assume "map stepType b1 = [Reasoning, Action, Observation]"
      then show ?thesis
        using Threw st n1 e
        by (intro exI [of _ b1] exI [of _ "[]"]) (simp add: dangling_def)
    next
      assume "map stepType b1 = [Reasoning]"
      then show ?thesis
        using Threw st n1 e
        by (intro exI [of _ "[]"] exI [of _ b1]) (simp add: dangling_def)
    next
      assume "map stepType b1 = [Reasoning, Action]"
      then show ?thesis
        using Threw st n1 e
        by (intro exI [of _ "[]"] exI [of _ b1]) (simp add: dangling_def)
    qed
  next
    case (Ok u s1)
    with c1 have k: "map stepType b1 = [Reasoning, Action, Observation]" by simp
    from Ok b1 i1 have st: "cur_steps s1 = cur_steps s @ b1" "iteration s1 = iteration s" by simp_all
    from Cons.IH [of s1]
    obtain blk dg where 2: "cur_steps (state_of (process_tool_calls w response tcs s1)) = cur_steps s1 @ blk @ dg"
      and n2: "\<forall>x\<in>set (blk @ dg). stepNumber x = iteration s1"
      and r2: "rao_blocks (map stepType blk)" and d2: "dangling (map stepType dg)"
      and i2: "iteration (state_of (process_tool_calls w response tcs s1)) = iteration s1"
      and c2: "case process_tool_calls w response tcs s1 of
            Ok u s' \<Rightarrow> dg = []
          | Threw e s' \<Rightarrow> (\<exists>n. db_query w n = Some e)"
      by blast
    have eq: "process_tool_calls w response (tc # tcs) s = process_tool_calls w response tcs s1"
      using Ok by simp
    have "rao_blocks (map stepType (b1 @ blk))" using k r2 by simp
    moreover have "\<forall>x\<in>set ((b1 @ blk) @ dg). stepNumber x = iteration s"
      using n1 n2 st by auto
    moreover have "cur_steps (state_of (process_tool_calls w response (tc # tcs) s))
                     = cur_steps s @ (b1 @ blk) @ dg"
      using eq 2 st by simp
    ultimately show ?thesis
      using d2 i2 c2 st eq
      by (intro exI [of _ "b1 @ blk"] exI [of _ dg]) simp
  qed
qed

lemma trace_ordered_sorted: "trace_ordered xs \<Longrightarrow> sorted (map stepNumber xs)"
  by (simp add: trace_ordered_def)

lemma trace_ordered_cut: "trace_ordered xs \<Longrightarrow> cut_trace xs"
  by (simp add: cut_trace_def)

lemma trace_inv_cut_extend:
  assumes inv: "trace_inv s"
      and steps: "cur_steps s' = cur_steps s @ blk @ dg"
      and same: "\<forall>x\<in>set (blk @ dg). stepNumber x = iteration s + 1"
      and kinds: "iteration_kinds_ok (map stepType blk)"
      and d: "dangling (map stepType dg)"
  shows "sorted (map stepNumber (cur_steps s')) \<and> cut_trace (cur_steps s')
       \<and> (dg = [] \<longrightarrow> trace_ordered (cur_steps s'))"
proof -
  from inv have below: "\<forall>x\<in>set (cur_steps s). stepNumber x < iteration s + 1"
    by (auto simp: trace_inv_def)
  from inv have o: "trace_ordered (cur_steps s)" by (simp add: trace_inv_def)
  from same have sb: "\<forall>x\<in>set blk. stepNumber x = iteration s + 1"
    and sd: "\<forall>x\<in>set dg. stepNumber x = iteration s + 1" by auto
  from trace_ordered_append_block [OF o below sb kinds]
  have ob: "trace_ordered (cur_steps s @ blk)" .
  from cut_trace_intro [OF ob d sd] have c: "cut_trace (cur_steps s')" by (simp add: steps)
  have "sorted (map stepNumber (cur_steps s @ blk))" using ob by (rule trace_ordered_sorted)
  moreover have "sorted (map stepNumber dg)" using sd by (induction dg) auto
  moreover have "\<forall>x\<in>set (cur_steps s @ blk). \<forall>y\<in>set dg. stepNumber x \<le> stepNumber y"
    using below sb sd by auto
  ultimately have "sorted (map stepNumber ((cur_steps s @ blk) @ dg))"
    unfolding map_append sorted_append by auto
  then have so: "sorted (map stepNumber (cur_steps s'))" by (simp add: steps)
  from ob have "dg = [] \<longrightarrow> trace_ordered (cur_steps s')" by (simp add: steps)
  with c so show ?thesis by simp
qed

lemma iteration_body_any:
  assumes inv: "trace_inv s"
  shows "case iteration_body w cfg ts s of
           Break s' \<Rightarrow> trace_inv s'
         | Continue s' \<Rightarrow> trace_inv s'
         | Abort e s' \<Rightarrow> aborted w e (cur_steps s')"
proof -
  let ?s2 = "s\<lparr>iteration := iteration s + 1, clock_reads := Suc (clock_reads s)\<rparr>"
  have nil: "iteration_kinds_ok (map stepType [])" by (simp add: iteration_kinds_ok_def)
  show ?thesis
  proof (cases "now w (clock_reads s) - startTime s > timeoutSeconds cfg * 1000")
    case True
    then have "iteration_body w cfg ts s =
                 Break (?s2\<lparr>cur_status := Timeout, finalAnswer := ''Execution timed out''\<rparr>)"
      by (simp add: iteration_body_def read_clock_def Let_def)
    then show ?thesis
      using trace_inv_extend [OF inv, of _ "[]"] nil by simp
  next
    case nt: False
    show ?thesis
    proof (cases "chat w (llm_calls s) (messages s)
                    \<lparr>opt_model = Some (model cfg), opt_tools = Some ts,
                     opt_temperature = None, opt_maxTokens = None\<rparr>")
      case (Inl e)
      with nt have b: "iteration_body w cfg ts s = Abort e (?s2\<lparr>llm_calls := Suc (llm_calls s)\<rparr>)"
        by (simp add: iteration_body_def read_clock_def Let_def)
      from inv have "trace_ordered (cur_steps s)" by (simp add: trace_inv_def)
      with Inl have "aborted w e (cur_steps s)"
        unfolding aborted_def using trace_ordered_sorted trace_ordered_cut by blast
      with b show ?thesis by simp
    next
      case (Inr response)
      let ?s4 = "add_usage cfg response (?s2\<lparr>llm_calls := Suc (llm_calls s)\<rparr>)"
      show ?thesis
      proof (cases "no_tool_calls (toolCalls response)")
        case True
        let ?f = "\<lparr>stepNumber = iteration s + 1, stepType = Final,
                     reasoning = Some (resp_content response), action = None, observation = None,
                     timestamp = now w (Suc (clock_reads s))\<rparr>"
        let ?s5 = "push_step w Final (Some (resp_content response)) None None
                     (?s4\<lparr>finalAnswer := resp_content response\<rparr>)"
        have inv5: "trace_inv (?s5\<lparr>db_calls := Suc (db_calls s)\<rparr>)"
          using trace_inv_extend [OF inv, of _ "[?f]"]
          by (simp add: add_usage_def iteration_kinds_ok_def)
        show ?thesis
        proof (cases "db_query w (db_calls s)")
          case None
          with nt Inr True have "iteration_body w cfg ts s = Break (?s5\<lparr>db_calls := Suc (db_calls s)\<rparr>)"
            by (simp add: iteration_body_def read_clock_def Let_def logStep_cases add_usage_def)
          with inv5 show ?thesis by simp
        next
          case (Some e)
          with nt Inr True have b: "iteration_body w cfg ts s = Abort e (?s5\<lparr>db_calls := Suc (db_calls s)\<rparr>)"
            by (simp add: iteration_body_def read_clock_def Let_def logStep_cases add_usage_def)
          from inv5 have "trace_ordered (cur_steps (?s5\<lparr>db_calls := Suc (db_calls s)\<rparr>))"
            by (simp add: trace_inv_def)
          with Some have "aborted w e (cur_steps (?s5\<lparr>db_calls := Suc (db_calls s)\<rparr>))"
            unfolding aborted_def using trace_ordered_sorted trace_ordered_cut by blast
          with b show ?thesis by simp
        qed
      next
        case False
        let ?p = "process_tool_calls w response (calls_of (toolCalls response)) ?s4"
        from process_tool_calls_any [of w response "calls_of (toolCalls response)" ?s4]
        obtain blk dg where st: "cur_steps (state_of ?p) = cur_steps ?s4 @ blk @ dg"
          and nums: "\<forall>x\<in>set (blk @ dg). stepNumber x = iteration ?s4"
          and r: "rao_blocks (map stepType blk)" and d: "dangling (map stepType dg)"
          and it: "iteration (state_of ?p) = iteration ?s4"
          and c: "case ?p of Ok u s' \<Rightarrow> dg = [] | Threw e s' \<Rightarrow> (\<exists>n. db_query w n = Some e)"
          by blast
        have k: "iteration_kinds_ok (map stepType blk)" using r by (simp add: iteration_kinds_ok_def)
        have st': "cur_steps (state_of ?p) = cur_steps s @ blk @ dg"
          using st by (simp add: add_usage_def)
        have nums': "\<forall>x\<in>set (blk @ dg). stepNumber x = iteration s + 1"
          using nums by (simp add: add_usage_def)
        note ext = trace_inv_cut_extend [OF inv st' nums' k d]
        show ?thesis
        proof (cases ?p)
          case (Threw e s')
          with False nt Inr have b: "iteration_body w cfg ts s = Abort e s'"
            by (simp add: iteration_body_def read_clock_def Let_def)
          from Threw c have e: "\<exists>n. db_query w n = Some e" by simp
          from ext Threw e have "aborted w e (cur_steps s')"
            by (simp add: aborted_def)
          with b show ?thesis by simp
        next
          case (Ok u s')
          with False nt Inr have b: "iteration_body w cfg ts s = Continue s'"
            by (simp add: iteration_body_def read_clock_def Let_def)
          from Ok c have "dg = []" by simp
          with Ok st' nums' it k have "trace_inv s'"
            using trace_inv_extend [OF inv, of s' blk] by (simp add: add_usage_def)
          with b show ?thesis by simp
        qed
      qed
    qed
  qed
qed

lemma react_loop_any:
  assumes inv: "trace_inv s"
  shows "case react_loop w cfg ts s of
           Ok u s' \<Rightarrow> trace_inv s'
         | Threw e s' \<Rightarrow> aborted w e (cur_steps s')"
  using inv
proof (induction w cfg ts s rule: react_loop.induct)
  case (1 w cfg ts s)
  note body = iteration_body_any [OF "1.prems", of w cfg ts]
  show ?case
  proof (cases "iteration s < maxIterations cfg")
    case False
    with "1.prems" show ?thesis by (simp add: react_loop.simps)
  next
    case True
    show ?thesis
    proof (cases "iteration_body w cfg ts s")
      case (Abort e s')
      with True body show ?thesis by (simp add: react_loop.simps)
    next
      case (Break s')
      with True body show ?thesis by (simp add: react_loop.simps)
    next
      case (Continue s')
      with body have "trace_inv s'" by simp
      from "1.IH" [OF True Continue this] True Continue show ?thesis
        by (simp add: react_loop.simps)
    qed
  qed
qed

section \<open>The step trace of the result, whichever way the run ends\<close>

lemma try_block_entered:
  assumes ins: "db_query w 0 = None"
      and prompt: "buildSystemPrompt (builtins w) (systemPrompt cfg) (tools cfg) = Inr prompt"
      and ts: "parse_tools (builtins w) (tools cfg) = Inr ts"
  shows "try_block w cfg input (initial_state w) =
           (case react_loop w cfg ts (loop_entry w prompt input) of
              Threw e s' \<Rightarrow> Threw e s'
            | Ok u s4 \<Rightarrow>
                (let s5 = (if iteration s4 \<ge> maxIterations cfg \<and> cur_status s4 = Success
                           then s4\<lparr>cur_status := MaxIterations,
                                   finalAnswer := ''Maximum iterations reached without finding a final answer''\<rparr>
                           else s4);
                     s6 = s5\<lparr>clock_reads := Suc (clock_reads s5)\<rparr>
                 in case db_call w s6 of
                      Threw e s' \<Rightarrow> Threw e s'
                    | Ok u s7 \<Rightarrow>
                        (case db_call w s7 of
                           Threw e s' \<Rightarrow> Threw e s'
                         | Ok u s8 \<Rightarrow>
                             Ok \<lparr>executionId = uuidv4 w, status = cur_status s8,
                                 output_text = finalAnswer s8, steps = cur_steps s8,
                                 tokensUsed = totalTokensUsed s8, cost = totalCost s8,
                                 executionTimeMs = now w (clock_reads s5) - startTime s5,
                                 exec_error = None\<rparr> s8)))"
  using ins prompt ts
  by (simp add: try_block_def db_call_cases read_clock_def Let_def loop_entry_def
        initial_state_def split: attempt.splits)

lemma try_block_any:
  "case try_block w cfg input (initial_state w) of
     Ok r s \<Rightarrow> trace_ordered (steps r)
   | Threw e s \<Rightarrow> sorted (map stepNumber (cur_steps s)) \<and> cut_trace (cur_steps s)
        \<and> (\<not> trace_ordered (cur_steps s) \<longrightarrow> (\<exists>n. db_query w n = Some e))"
proof (cases "db_query w 0")
  case (Some e)
  then show ?thesis
    by (simp add: try_block_def db_call_cases initial_state_def trace_ordered_Nil cut_trace_def)
next
  case ins: None
  show ?thesis
  proof (cases "buildSystemPrompt (builtins w) (systemPrompt cfg) (tools cfg)")
    case (Inl e)
    with ins show ?thesis
      by (simp add: try_block_def db_call_cases initial_state_def trace_ordered_Nil cut_trace_def)
  next
    case prompt: (Inr prompt)
    show ?thesis
    proof (cases "parse_tools (builtins w) (tools cfg)")
      case (Inl e)
      with ins prompt show ?thesis
        by (simp add: try_block_def db_call_cases initial_state_def trace_ordered_Nil cut_trace_def)
    next
      case ts: (Inr ts)
      let ?l = "react_loop w cfg ts (loop_entry w prompt input)"
      note tb = try_block_entered [OF ins prompt ts, of input]
      note inv = react_loop_any [where s = "loop_entry w prompt input" and w = w and cfg = cfg and ts = ts,
                    OF trace_inv_loop_entry]
      show ?thesis
      proof (cases ?l)
        case (Threw e s')
        with inv have "aborted w e (cur_steps s')" by simp
        with Threw tb show ?thesis by (simp add: aborted_def)
      next
        case (Ok u s4)
        with inv have o: "trace_ordered (cur_steps s4)" by (simp add: trace_inv_def)
        from Ok tb o show ?thesis
          by (auto simp: db_call_cases Let_def trace_ordered_sorted trace_ordered_cut
                split: option.splits)
      qed
    qed
  qed
qed

lemma run_execute_any:
  assumes run: "run_execute w cfg input userId = (Inr r, sf)"
  shows "sorted (map stepNumber (steps r)) \<and> cut_trace (steps r)
       \<and> (status r \<noteq> Error \<longrightarrow> trace_ordered (steps r))
       \<and> (\<not> trace_ordered (steps r) \<longrightarrow>
             (\<exists>n e. db_query w n = Some e \<and> exec_error r = Some (message e)))"
proof (cases "try_block w cfg input (initial_state w)")
  case (Ok r' s)
  with run have "r = r'" by (simp add: run_execute_def)
  with try_block_any [of w cfg input] Ok show ?thesis
    by (simp add: trace_ordered_sorted trace_ordered_cut)
next
  case (Threw e s)
  with try_block_any [of w cfg input]
  have a: "sorted (map stepNumber (cur_steps s))" "cut_trace (cur_steps s)"
       "\<not> trace_ordered (cur_steps s) \<longrightarrow> (\<exists>n. db_query w n = Some e)"
    by simp_all
  from run Threw have "steps r = cur_steps s \<and> status r = Error \<and> exec_error r = Some (message e)"
    by (auto simp: run_execute_def read_clock_def db_call_cases Let_def split: option.splits)
  with a show ?thesis by auto
qed

lemma run_execute_steps:
  assumes run: "run_execute w cfg input userId = (Inr r, sf)"
  shows "steps r =
           (case db_query w 0 of
              Some e \<Rightarrow> []
            | None \<Rightarrow>
                (case buildSystemPrompt (builtins w) (systemPrompt cfg) (tools cfg) of
                   Inl e \<Rightarrow> []
                 | Inr prompt \<Rightarrow>
                     (case parse_tools (builtins w) (tools cfg) of
                        Inl e \<Rightarrow> []
                      | Inr ts \<Rightarrow> cur_steps (state_of (react_loop w cfg ts (loop_entry w prompt input))))))"
proof (cases "db_query w 0")
  case (Some e)
  with run show ?thesis
    by (auto simp: run_execute_def try_block_def db_call_cases initial_state_def read_clock_def
          Let_def split: option.splits)
next
  case ins: None
  show ?thesis
  proof (cases "buildSystemPrompt (builtins w) (systemPrompt cfg) (tools cfg)")
    case (Inl e)
    with ins run show ?thesis
      by (auto simp: run_execute_def try_block_def db_call_cases initial_state_def read_clock_def
            Let_def split: option.splits)
  next
    case prompt: (Inr prompt)
    show ?thesis
    proof (cases "parse_tools (builtins w) (tools cfg)")
      case (Inl e)
      with ins prompt run show ?thesis
        by (auto simp: run_execute_def try_block_def db_call_cases initial_state_def read_clock_def
              Let_def split: option.splits)
    next
      case ts: (Inr ts)
      let ?l = "react_loop w cfg ts (loop_entry w prompt input)"
      note tb = try_block_entered [OF ins prompt ts, of input]
      show ?thesis
      proof (cases ?l)
        case (Threw e s')
        with tb have "try_block w cfg input (initial_state w) = Threw e s'" by simp
        with run have "steps r = cur_steps s'"
          by (auto simp: run_execute_def db_call_cases read_clock_def Let_def split: option.splits)
        with ins prompt ts Threw show ?thesis by simp
      next
        case (Ok u s4)
        with tb run have "steps r = cur_steps s4"
          by (auto simp: run_execute_def db_call_cases read_clock_def Let_def
                split: option.splits if_splits)
        with ins prompt ts Ok show ?thesis by simp
      qed
    qed
  qed
qed

lemma react_loop_steps:
  "cur_steps (state_of (react_loop w cfg ts s)) =
     (if iteration s < maxIterations cfg
      then (case iteration_body w cfg ts s of
              Continue s' \<Rightarrow> cur_steps (state_of (react_loop w cfg ts s'))
            | Break s' \<Rightarrow> cur_steps s'
            | Abort e s' \<Rightarrow> cur_steps s')
      else cur_steps s)"
  by (subst react_loop.simps) (simp split: loop_exit.splits)

text \<open>The run in which the tool throws and every database call succeeds.\<close>

lemma example_tool_throws_run:
  "ReActEngine_execute world_tool_throws agent_with_search ''Weather?'' ''user-1'' = Inr tool_throws_result"
  by (simp add: ReActEngine_execute_def run_execute_def try_block_def initial_state_def
        world_tool_throws_def agent_with_search_def tool_call_reply_def direct_answer_def
        search_call_def tool_throws_result_def db_call_def buildSystemPrompt_def tool_description_def
        example_runtime_def search_schema_def search_schema_text_def dq_def react_loop.simps iteration_body_def
        read_clock_def add_usage_def process_tool_call_def logStep_def push_step_def
        tool_observation_def calculateCost_def costs_of_def TOKEN_COSTS_def Let_def)

section \<open>The tool calls of one response, processed in order\<close>




text \<open>The steps recorded for the tool calls of a response are a prefix of the expected
  ones: the whole of them when every call was processed, and otherwise those up to the
  step whose write to the step log threw.\<close>

lemma process_tool_call_prefix:
  "\<exists>k. 1 \<le> k \<and> k \<le> 3
       \<and> cur_steps (state_of (process_tool_call w response tc s)) =
           cur_steps s @ take k (call_steps w response tc (iteration s) (clock_reads s) (tool_calls s))
       \<and> (\<forall>u s'. process_tool_call w response tc s = Ok u s' \<longrightarrow>
             k = 3 \<and> iteration s' = iteration s \<and> clock_reads s' = clock_reads s + 3
             \<and> tool_calls s' = Suc (tool_calls s))"
proof (cases "db_query w (db_calls s)")
  case (Some e)
  then show ?thesis
    by (intro exI [of _ 1]) (simp add: process_tool_call_def logStep_cases Let_def call_steps_def)
next
  case d0: None
  show ?thesis
  proof (cases "db_query w (Suc (db_calls s))")
    case (Some e)
    with d0 show ?thesis
      by (intro exI [of _ 2])
         (simp add: process_tool_call_def logStep_cases Let_def call_steps_def numeral_2_eq_2)
  next
    case d1: None
    with d0 show ?thesis
      by (intro exI [of _ 3])
         (simp add: process_tool_call_def logStep_cases Let_def call_steps_def split: option.splits)
  qed
qed

lemma process_tool_calls_prefix:
  "\<exists>k. k \<le> 3 * length tcs \<and> (tcs \<noteq> [] \<longrightarrow> 1 \<le> k)
       \<and> cur_steps (state_of (process_tool_calls w response tcs s)) =
           cur_steps s @ take k (calls_steps w response tcs (iteration s) (clock_reads s) (tool_calls s))
       \<and> (\<forall>u s'. process_tool_calls w response tcs s = Ok u s' \<longrightarrow> k = 3 * length tcs)"
proof (induction tcs arbitrary: s)
  case Nil
  show ?case by simp
next
  case (Cons tc tcs)
  let ?c = "call_steps w response tc (iteration s) (clock_reads s) (tool_calls s)"
  have len: "length ?c = 3" by (simp add: call_steps_def)
  from process_tool_call_prefix [of w response tc s]
  obtain k where k: "1 \<le> k" "k \<le> 3"
    and st: "cur_steps (state_of (process_tool_call w response tc s)) = cur_steps s @ take k ?c"
    and ok: "\<forall>u s'. process_tool_call w response tc s = Ok u s' \<longrightarrow>
             k = 3 \<and> iteration s' = iteration s \<and> clock_reads s' = clock_reads s + 3
             \<and> tool_calls s' = Suc (tool_calls s)"
    by blast
  show ?case
  proof (cases "process_tool_call w response tc s")
    case (Threw e s1)
    with st k len show ?thesis
      by (intro exI [of _ k]) simp
  next
    case (Ok u s1)
    with ok have f: "k = 3" "iteration s1 = iteration s" "clock_reads s1 = clock_reads s + 3"
      "tool_calls s1 = Suc (tool_calls s)" by simp_all
    from Ok st f len have st1: "cur_steps s1 = cur_steps s @ ?c" by simp
    from Cons.IH [of s1]
    obtain j where j: "j \<le> 3 * length tcs"
      and st2: "cur_steps (state_of (process_tool_calls w response tcs s1)) =
           cur_steps s1 @ take j (calls_steps w response tcs (iteration s1) (clock_reads s1) (tool_calls s1))"
      and ok2: "\<forall>u s'. process_tool_calls w response tcs s1 = Ok u s' \<longrightarrow> j = 3 * length tcs"
      by blast
    from Ok st1 st2 f j ok2 len show ?thesis
      by (intro exI [of _ "3 + j"]) simp
  qed
qed

lemma iteration_body_exit_tool_calls:
  assumes nt: "\<not> now w (clock_reads s) - startTime s > timeoutSeconds cfg * 1000"
      and resp: "chat w (llm_calls s) (messages s)
                    \<lparr>opt_model = Some (model cfg), opt_tools = Some ts,
                     opt_temperature = None, opt_maxTokens = None\<rparr> = Inr response"
      and calls: "\<not> no_tool_calls (toolCalls response)"
  shows "exit_state (iteration_body w cfg ts s) =
           state_of (process_tool_calls w response (calls_of (toolCalls response))
             (add_usage cfg response
               (s\<lparr>iteration := iteration s + 1, clock_reads := Suc (clock_reads s),
                  llm_calls := Suc (llm_calls s)\<rparr>)))
       \<and> (\<forall>s1. iteration_body w cfg ts s = Continue s1 \<longleftrightarrow>
             process_tool_calls w response (calls_of (toolCalls response))
               (add_usage cfg response
                 (s\<lparr>iteration := iteration s + 1, clock_reads := Suc (clock_reads s),
                    llm_calls := Suc (llm_calls s)\<rparr>)) = Ok () s1)
       \<and> (\<forall>s1. iteration_body w cfg ts s \<noteq> Break s1)"
  using assms
  by (simp add: iteration_body_def read_clock_def Let_def split: attempt.splits)

lemma iteration_body_prefix:
  assumes nt: "\<not> now w (clock_reads s) - startTime s > timeoutSeconds cfg * 1000"
      and resp: "chat w (llm_calls s) (messages s)
                    \<lparr>opt_model = Some (model cfg), opt_tools = Some ts,
                     opt_temperature = None, opt_maxTokens = None\<rparr> = Inr response"
      and calls: "\<not> no_tool_calls (toolCalls response)"
  shows "\<exists>k. 1 \<le> k \<and> k \<le> 3 * length (calls_of (toolCalls response))
           \<and> cur_steps (exit_state (iteration_body w cfg ts s)) = cur_steps s @
               take k (calls_steps w response (calls_of (toolCalls response)) (iteration s + 1)
                         (Suc (clock_reads s)) (tool_calls s))
           \<and> (\<forall>s1. iteration_body w cfg ts s = Continue s1 \<longrightarrow>
                  k = 3 * length (calls_of (toolCalls response)))"
proof -
  let ?s4 = "add_usage cfg response
               (s\<lparr>iteration := iteration s + 1, clock_reads := Suc (clock_reads s),
                  llm_calls := Suc (llm_calls s)\<rparr>)"
  let ?tcs = "calls_of (toolCalls response)"
  from calls have ne: "?tcs \<noteq> []" by (cases "toolCalls response") auto
  note ex = iteration_body_exit_tool_calls [OF nt resp calls]
  from process_tool_calls_prefix [of ?tcs w response ?s4] ne
  obtain k where k: "k \<le> 3 * length ?tcs" "1 \<le> k"
    and st: "cur_steps (state_of (process_tool_calls w response ?tcs ?s4)) =
           cur_steps ?s4 @ take k (calls_steps w response ?tcs (iteration ?s4) (clock_reads ?s4) (tool_calls ?s4))"
    and ok: "\<forall>u s'. process_tool_calls w response ?tcs ?s4 = Ok u s' \<longrightarrow> k = 3 * length ?tcs"
    by blast
  from ex ok have "\<forall>s1. iteration_body w cfg ts s = Continue s1 \<longrightarrow> k = 3 * length ?tcs"
    by blast
  moreover from ex st have "cur_steps (exit_state (iteration_body w cfg ts s)) = cur_steps s @
               take k (calls_steps w response ?tcs (iteration s + 1) (Suc (clock_reads s)) (tool_calls s))"
    by (simp add: add_usage_def)
  ultimately show ?thesis using k by blast
qed

section \<open>Exceptions of the loop, and a tool invocation that throws\<close>






section \<open>Tool executor: failures are results\<close>

lemma execute_switch_unknown:
  "toolName \<notin> set registry \<Longrightarrow>
   execute_switch rt b toolName args = Inl (Thrown (''Unknown tool: '' @ toolName))"
  by (simp add: execute_switch_def registry_def)

text \<open>
  C8. For a tool name outside the registry (\<open>web_search\<close>, \<open>send_email\<close>,
  \<open>database_query\<close>, \<open>http_request\<close>, \<open>slack_notify\<close>) and any arguments,
  \<open>ToolExecutor.execute\<close> returns the result \<open>{success: false, error}\<close> whose error is
  \<open>Unknown tool: \<close> followed by the name; and for every name, every argument value and
  every behaviour of the tool methods (returning or throwing), \<open>execute\<close> returns a
  result and throws nothing.
\<close>

theorem unknown_tool_returns_failure:
  "(toolName \<notin> set registry \<longrightarrow>
      ToolExecutor_execute rt b toolName args =
        Inr \<lparr>success = False, data = None, error = Some (''Unknown tool: '' @ toolName)\<rparr>)
   \<and> (\<exists>r. ToolExecutor_execute rt b toolName args = Inr r)"
  by (simp add: ToolExecutor_execute_def execute_switch_unknown split: sum.splits)

theorem unknown_tool_returns_failure_witness:
  "''calculator'' \<notin> set registry \<and>
   ToolExecutor_execute example_runtime example_backends ''calculator'' JNull =
     Inr \<lparr>success = False, data = None, error = Some ''Unknown tool: calculator''\<rparr>"
  using unknown_tool_returns_failure [of "''calculator''" example_runtime example_backends JNull]
  by (simp add: registry_def)

section \<open>Gateway: the request sent to the Anthropic provider\<close>

lemma userMessages_roles:
  "t \<in> set (userMessages msgs) \<Longrightarrow> turn_role t = ''user'' \<or> turn_role t = ''assistant''"
  by (auto simp: userMessages_def)

lemma systemMessage_none: "\<forall>m\<in>set msgs. role m \<noteq> System \<Longrightarrow> systemMessage msgs = ''''"
proof -
  assume "\<forall>m\<in>set msgs. role m \<noteq> System"
  then have "find (\<lambda>m. role m = System) msgs = None"
    by (induction msgs) auto
  then show ?thesis by (simp add: systemMessage_def)
qed

lemma find_first:
  "\<forall>x\<in>set pre. \<not> P x \<Longrightarrow> P m \<Longrightarrow> find P (pre @ m # post) = Some m"
  by (induction pre) auto

lemma systemMessage_first:
  "\<forall>x\<in>set pre. role x \<noteq> System \<Longrightarrow> role m = System \<Longrightarrow>
   systemMessage (pre @ m # post) = content m"
  by (simp add: systemMessage_def find_first)

lemma example_anthropic_request_built:
  "anthropic_request_of example_runtime example_conversation example_claude_options =
     Inr example_anthropic_request"
  by (simp add: anthropic_request_of_def example_conversation_def example_claude_options_def
        example_anthropic_request_def systemMessage_def userMessages_def)

lemma anthropic_request_fields:
  assumes "anthropic_request_of rt msgs opts = Inr rq"
  shows "aq_system rq = systemMessage msgs" and "aq_messages rq = userMessages msgs"
  using assms by (auto simp: anthropic_request_of_def split: sum.splits)

lemma chatAnthropic_calls_provider:
  assumes "anthropic_request_of rt msgs opts = Inr rq"
  shows "(\<forall>e. anthropic_create p n rq = Inl e \<longrightarrow> chatAnthropic rt p n msgs opts = Inl e)
       \<and> (\<forall>r. chatAnthropic rt p n msgs opts = Inr r \<longrightarrow>
              (\<exists>response. anthropic_create p n rq = Inr response \<and> resp_model r = an_model response))"
  using assms by (auto simp: chatAnthropic_def split: sum.splits)

text \<open>
  C9. In the Anthropic branch, for every message list for which a request is built, the
  turn list sent to the provider is the list of the messages that are not system
  messages, in their order, each as a turn with its content and with role \<open>assistant\<close>
  for an assistant message and \<open>user\<close> for any other: so it has no entry of role
  \<open>system\<close>, it is shorter than the message list by the number of system messages, a
  system message contributes no turn, and a tool-result (\<open>function\<close>) message is
  forwarded in its place as a \<open>user\<close> turn that carries its content only, its tool name
  dropped. The top-level \<open>system\<close> field is the empty string when the list has no
  system message and is the content of the first system message otherwise. This request
  is the one \<open>chatAnthropic\<close> passes to the provider.
\<close>

theorem anthropic_request_system_and_turns:
  "anthropic_request_of rt msgs opts = Inr rq \<Longrightarrow>
     aq_messages rq =
       map (\<lambda>m. \<lparr>turn_role = (if role m = Assistant then ''assistant'' else ''user''),
                  turn_content = content m\<rparr>)
           (filter (\<lambda>m. role m \<noteq> System) msgs)
   \<and> (\<forall>t\<in>set (aq_messages rq). turn_role t \<noteq> ''system'')
   \<and> length (aq_messages rq) = length msgs - length (filter (\<lambda>m. role m = System) msgs)
   \<and> (\<forall>pre m post. msgs = pre @ m # post \<and> role m = System
          \<longrightarrow> aq_messages rq =
                map (\<lambda>m. \<lparr>turn_role = (if role m = Assistant then ''assistant'' else ''user''),
                           turn_content = content m\<rparr>)
                    (filter (\<lambda>m. role m \<noteq> System) (pre @ post)))
   \<and> ((\<forall>m\<in>set msgs. role m \<noteq> System) \<longrightarrow> aq_system rq = '''')
   \<and> (\<forall>pre m post. msgs = pre @ m # post \<and> (\<forall>x\<in>set pre. role x \<noteq> System) \<and> role m = System
          \<longrightarrow> aq_system rq = content m)
   \<and> (\<forall>pre m post. msgs = pre @ m # post \<and> role m = Function
          \<longrightarrow> length (filter (\<lambda>x. role x \<noteq> System) pre) < length (aq_messages rq)
              \<and> aq_messages rq ! length (filter (\<lambda>x. role x \<noteq> System) pre) =
                    \<lparr>turn_role = ''user'', turn_content = content m\<rparr>)
   \<and> (\<forall>e. anthropic_create p n rq = Inl e \<longrightarrow> chatAnthropic rt p n msgs opts = Inl e)
   \<and> (\<forall>r. chatAnthropic rt p n msgs opts = Inr r \<longrightarrow>
          (\<exists>response. anthropic_create p n rq = Inr response \<and> resp_model r = an_model response))"
proof -
  assume a: "anthropic_request_of rt msgs opts = Inr rq"
  note sys = anthropic_request_fields(1) [OF a] and turns = anthropic_request_fields(2) [OF a]
  let ?f = "\<lambda>m. \<lparr>turn_role = (if role m = Assistant then ''assistant'' else ''user''),
                  turn_content = content m\<rparr>"
  have 0: "aq_messages rq = map ?f (filter (\<lambda>m. role m \<noteq> System) msgs)"
    by (simp add: turns userMessages_def)
  have 1: "\<forall>t\<in>set (aq_messages rq). turn_role t \<noteq> ''system''"
    by (auto simp: 0)
  have "length (filter (\<lambda>m. role m \<noteq> System) msgs) + length (filter (\<lambda>m. role m = System) msgs) = length msgs"
    using sum_length_filter_compl [of "\<lambda>m. role m = System" msgs] by simp
  then have 2: "length (aq_messages rq) = length msgs - length (filter (\<lambda>m. role m = System) msgs)"
    by (simp add: 0)
  have 3: "\<forall>pre m post. msgs = pre @ m # post \<and> role m = System
          \<longrightarrow> aq_messages rq = map ?f (filter (\<lambda>m. role m \<noteq> System) (pre @ post))"
    by (auto simp: 0)
  have 4: "(\<forall>m\<in>set msgs. role m \<noteq> System) \<longrightarrow> aq_system rq = ''''"
    by (simp add: sys systemMessage_none)
  have 5: "\<forall>pre m post. msgs = pre @ m # post \<and> (\<forall>x\<in>set pre. role x \<noteq> System) \<and> role m = System
          \<longrightarrow> aq_system rq = content m"
    by (auto simp: sys systemMessage_first)
  have 6: "\<forall>pre m post. msgs = pre @ m # post \<and> role m = Function
          \<longrightarrow> length (filter (\<lambda>x. role x \<noteq> System) pre) < length (aq_messages rq)
              \<and> aq_messages rq ! length (filter (\<lambda>x. role x \<noteq> System) pre) =
                    \<lparr>turn_role = ''user'', turn_content = content m\<rparr>"
    by (auto simp: 0 nth_append)
  note 7 = chatAnthropic_calls_provider [OF a, of p n]
  from 0 1 2 3 4 5 6 7 show ?thesis by blast
qed

lemma example_anthropic_chat:
  "chatAnthropic example_runtime example_providers 0 example_conversation example_claude_options =
     Inr example_anthropic_reply"
  by (simp add: chatAnthropic_def example_anthropic_request_built example_providers_def
        example_anthropic_request_def example_anthropic_reply_def anthropic_usage_of_def)

theorem anthropic_request_system_and_turns_witness:
  "anthropic_request_of example_runtime example_conversation example_claude_options =
     Inr example_anthropic_request
   \<and> aq_messages example_anthropic_request =
       [\<lparr>turn_role = ''user'', turn_content = ''What is the weather?''\<rparr>,
        \<lparr>turn_role = ''assistant'', turn_content = ''Let me look.''\<rparr>,
        \<lparr>turn_role = ''user'', turn_content = ''sunny''\<rparr>]
   \<and> length (aq_messages example_anthropic_request) = 3
   \<and> aq_system example_anthropic_request = ''Be brief.''
   \<and> (\<exists>rq. anthropic_request_of example_runtime (tl example_conversation) example_claude_options = Inr rq
          \<and> aq_system rq = [])
   \<and> (\<exists>response. anthropic_create example_providers 0 example_anthropic_request = Inr response
          \<and> resp_model example_anthropic_reply = an_model response)"
proof -
  note t = anthropic_request_system_and_turns [OF example_anthropic_request_built,
             of example_providers 0]
  from t have "aq_messages example_anthropic_request =
       map (\<lambda>m. \<lparr>turn_role = (if role m = Assistant then ''assistant'' else ''user''),
                  turn_content = content m\<rparr>)
           (filter (\<lambda>m. role m \<noteq> System) example_conversation)"
    by blast
  then have turns: "aq_messages example_anthropic_request =
       [\<lparr>turn_role = ''user'', turn_content = ''What is the weather?''\<rparr>,
        \<lparr>turn_role = ''assistant'', turn_content = ''Let me look.''\<rparr>,
        \<lparr>turn_role = ''user'', turn_content = ''sunny''\<rparr>]"
    by (simp add: example_conversation_def)
  from t have "length (aq_messages example_anthropic_request) =
      length example_conversation - length (filter (\<lambda>m. role m = System) example_conversation)"
    by blast
  then have len: "length (aq_messages example_anthropic_request) = 3"
    by (simp add: example_conversation_def)
  have "example_conversation = [] @ \<lparr>role = System, content = ''Be brief.'', name = None\<rparr> #
          tl example_conversation"
    by (simp add: example_conversation_def)
  moreover have "\<forall>x\<in>set ([]::Message list). role x \<noteq> System" by simp
  moreover have "role \<lparr>role = System, content = ''Be brief.'', name = None\<rparr> = System" by simp
  moreover from t have "\<forall>pre m post. example_conversation = pre @ m # post
          \<and> (\<forall>x\<in>set pre. role x \<noteq> System) \<and> role m = System
          \<longrightarrow> aq_system example_anthropic_request = content m"
    by blast
  ultimately have "aq_system example_anthropic_request =
                 content \<lparr>role = System, content = ''Be brief.'', name = None\<rparr>"
    by blast
  then have sys: "aq_system example_anthropic_request = ''Be brief.''"
    by simp
  obtain rq where rq: "anthropic_request_of example_runtime (tl example_conversation)
                         example_claude_options = Inr rq"
    by (simp add: anthropic_request_of_def example_claude_options_def)
  have "\<forall>m\<in>set (tl example_conversation). role m \<noteq> System"
    by (simp add: example_conversation_def)
  with anthropic_request_system_and_turns [OF rq] have "aq_system rq = []"
    by blast
  with rq have nosys: "\<exists>rq. anthropic_request_of example_runtime (tl example_conversation)
                              example_claude_options = Inr rq \<and> aq_system rq = []"
    by blast
  from t example_anthropic_chat
  have prov: "\<exists>response. anthropic_create example_providers 0 example_anthropic_request = Inr response
          \<and> resp_model example_anthropic_reply = an_model response"
    by blast
  from example_anthropic_request_built turns len sys nosys prov show ?thesis by simp
qed

section \<open>Gateway: usage counters\<close>

lemma claude_not_openai:
  assumes "startsWith m ''claude-''"
  shows "\<not> startsWith m ''gpt-''" and "\<not> startsWith m ''o1-''"
proof -
  from assms have t: "take (length ''claude-'') m = ''claude-''" by (simp only: startsWith_def)
  have "take (length ''gpt-'') m = take (length ''gpt-'') (take (length ''claude-'') m)" by simp
  with t have "take (length ''gpt-'') m = take (length ''gpt-'') ''claude-''" by (simp only:)
  then show "\<not> startsWith m ''gpt-''" by (simp add: startsWith_def)
  have "take (length ''o1-'') m = take (length ''o1-'') (take (length ''claude-'') m)" by simp
  with t have "take (length ''o1-'') m = take (length ''o1-'') ''claude-''" by (simp only:)
  then show "\<not> startsWith m ''o1-''" by (simp add: startsWith_def)
qed

lemma chat_claude:
  assumes "startsWith m ''claude-''"
      and "LLMClient_chat rt p n msgs
             \<lparr>opt_model = Some m, opt_tools = ts, opt_temperature = tp, opt_maxTokens = mt\<rparr> = Inr r"
  shows "\<exists>po. chatAnthropic rt p n msgs po = Inr r"
  using assms claude_not_openai [OF assms(1)]
  by (auto simp: LLMClient_chat_def Let_def)

lemma chatAnthropic_consistent:
  "chatAnthropic rt p n msgs po = Inr r \<Longrightarrow> usage_consistent (usage r)"
  by (auto simp: chatAnthropic_def usage_consistent_def anthropic_usage_of_def split: sum.splits)

lemma example_openai_chat:
  "chatOpenAI example_runtime example_providers 0 example_conversation example_options =
     Inr example_openai_reply"
  by (simp add: chatOpenAI_def example_providers_def example_options_def example_openai_reply_def
        openai_request_of_def openai_usage_of_def)

lemma example_gateway_chat:
  "LLMClient_chat example_runtime example_providers 0 example_conversation example_chat_options =
     Inr example_openai_reply"
  by (simp add: LLMClient_chat_def startsWith_def Let_def chatOpenAI_def example_providers_def
        example_chat_options_def example_openai_reply_def openai_request_of_def openai_usage_of_def)

text \<open>
  C6, as stated, fails in the OpenAI branch: the three counters are copied from the
  provider's response, and nothing makes the reported total the sum of the other two.
  Here the gateway returns, for a \<open>gpt-4\<close> request, the usage 5, 3 and 9 that the
  provider reported.
\<close>

theorem openai_total_counterexample:
  "LLMClient_chat example_runtime example_providers 0 example_conversation example_chat_options =
     Inr example_openai_reply
   \<and> \<not> usage_consistent (usage example_openai_reply)"
  using example_gateway_chat by (simp add: example_openai_reply_def usage_consistent_def)

text \<open>
  C6, amended. Every response of the Anthropic branch, and so every response of \<open>chat\<close>
  for a model whose identifier starts with \<open>claude-\<close>, has
  \<open>totalTokens = promptTokens + completionTokens\<close>. Every response of the OpenAI branch
  carries the provider's own \<open>prompt_tokens\<close>, \<open>completion_tokens\<close> and \<open>total_tokens\<close>
  (each 0 when the provider sent no usage), so there the equation holds exactly when the
  provider's reported total is the sum of its two reported parts.
\<close>

theorem usage_total_per_branch:
  "(chatAnthropic rt p n msgs po = Inr r \<longrightarrow> usage_consistent (usage r))
   \<and> (startsWith m ''claude-''
        \<and> LLMClient_chat rt p n msgs
             \<lparr>opt_model = Some m, opt_tools = ts, opt_temperature = tp, opt_maxTokens = mt\<rparr> = Inr r
       \<longrightarrow> usage_consistent (usage r))
   \<and> (chatOpenAI rt p n msgs po = Inr r \<longrightarrow>
        (\<exists>response. openai_create p n (openai_request_of msgs po) = Inr response
           \<and> usage r = openai_usage_of response
           \<and> (usage_consistent (usage r) \<longleftrightarrow>
                (case oa_usage response of
                   None \<Rightarrow> True
                 | Some u \<Rightarrow> total_tokens u = prompt_tokens u + completion_tokens u))))"
proof -
  have 1: "chatAnthropic rt p n msgs po = Inr r \<longrightarrow> usage_consistent (usage r)"
    by (simp add: chatAnthropic_consistent)
  have 2: "startsWith m ''claude-''
        \<and> LLMClient_chat rt p n msgs
             \<lparr>opt_model = Some m, opt_tools = ts, opt_temperature = tp, opt_maxTokens = mt\<rparr> = Inr r
       \<longrightarrow> usage_consistent (usage r)"
    using chat_claude [of m rt p n msgs ts tp mt r] chatAnthropic_consistent by blast
  have 3: "chatOpenAI rt p n msgs po = Inr r \<longrightarrow>
        (\<exists>response. openai_create p n (openai_request_of msgs po) = Inr response
           \<and> usage r = openai_usage_of response
           \<and> (usage_consistent (usage r) \<longleftrightarrow>
                (case oa_usage response of
                   None \<Rightarrow> True
                 | Some u \<Rightarrow> total_tokens u = prompt_tokens u + completion_tokens u)))"
    by (auto simp: chatOpenAI_def usage_consistent_def openai_usage_of_def
          split: sum.splits list.splits option.splits)
  from 1 2 3 show ?thesis by blast
qed

theorem usage_total_per_branch_witness:
  "chatAnthropic example_runtime example_providers 0 example_conversation example_claude_options =
     Inr example_anthropic_reply
   \<and> usage_consistent (usage example_anthropic_reply)
   \<and> chatOpenAI example_runtime example_providers 0 example_conversation example_options =
       Inr example_openai_reply
   \<and> (\<exists>response.
         openai_create example_providers 0 (openai_request_of example_conversation example_options)
           = Inr response
         \<and> usage example_openai_reply = openai_usage_of response)"
proof -
  from usage_total_per_branch [of example_runtime example_providers 0 example_conversation
          example_claude_options example_anthropic_reply] example_anthropic_chat
  have a: "usage_consistent (usage example_anthropic_reply)" by simp
  from usage_total_per_branch [of example_runtime example_providers 0 example_conversation
          example_options example_openai_reply] example_openai_chat
  have b: "\<exists>response.
         openai_create example_providers 0 (openai_request_of example_conversation example_options)
           = Inr response
         \<and> usage example_openai_reply = openai_usage_of response"
    by blast
  from example_anthropic_chat example_openai_chat a b show ?thesis by blast
qed

section \<open>Engine: cost accounting\<close>

lemma iteration_body_cost:
  assumes "\<not> now w (clock_reads s) - startTime s > timeoutSeconds cfg * 1000"
      and "chat w (llm_calls s) (messages s) \<lparr>opt_model = Some (model cfg), opt_tools = Some ts,
                       opt_temperature = None, opt_maxTokens = None\<rparr> = Inr response"
  shows "totalCost (exit_state (iteration_body w cfg ts s)) =
           totalCost s + calculateCost (model cfg) (promptTokens (usage response)) (completionTokens (usage response))"
proof (cases "no_tool_calls (toolCalls response)")
  case True
  with assms show ?thesis
    by (simp add: iteration_body_def read_clock_def Let_def add_usage_def logStep_cases
          split: option.splits)
next
  case False
  have "totalCost (state_of (process_tool_calls w response (calls_of (toolCalls response))
           (add_usage cfg response (s\<lparr>iteration := iteration s + 1, clock_reads := Suc (clock_reads s),
               llm_calls := Suc (llm_calls s)\<rparr>)))) =
        totalCost s + calculateCost (model cfg) (promptTokens (usage response)) (completionTokens (usage response))"
    by (simp add: process_tool_calls_totalCost add_usage_def)
  with False assms show ?thesis
    by (cases "process_tool_calls w response (calls_of (toolCalls response))
           (add_usage cfg response (s\<lparr>iteration := iteration s + 1, clock_reads := Suc (clock_reads s),
               llm_calls := Suc (llm_calls s)\<rparr>))")
       (simp_all add: iteration_body_def read_clock_def Let_def)
qed

lemma iteration_body_cost_other:
  assumes "now w (clock_reads s) - startTime s > timeoutSeconds cfg * 1000
      \<or> (\<exists>e. chat w (llm_calls s) (messages s) \<lparr>opt_model = Some (model cfg), opt_tools = Some ts,
                       opt_temperature = None, opt_maxTokens = None\<rparr> = Inl e)"
  shows "totalCost (exit_state (iteration_body w cfg ts s)) = totalCost s"
  using assms by (auto simp add: iteration_body_def read_clock_def Let_def)


lemma iteration_body_cost_mono:
  assumes nonneg: "\<forall>n msgs opts r. chat w n msgs opts = Inr r \<longrightarrow>
                     0 \<le> promptTokens (usage r) \<and> 0 \<le> completionTokens (usage r)"
  shows "totalCost s \<le> totalCost (exit_state (iteration_body w cfg ts s))"
proof (cases "now w (clock_reads s) - startTime s > timeoutSeconds cfg * 1000")
  case True
  then show ?thesis by (simp add: iteration_body_cost_other)
next
  case nt: False
  show ?thesis
  proof (cases "chat w (llm_calls s) (messages s) \<lparr>opt_model = Some (model cfg), opt_tools = Some ts,
                       opt_temperature = None, opt_maxTokens = None\<rparr>")
    case (Inl e)
    then show ?thesis by (simp add: iteration_body_cost_other)
  next
    case (Inr response)
    with nonneg have "0 \<le> promptTokens (usage response) \<and> 0 \<le> completionTokens (usage response)"
      by blast
    then have "0 \<le> calculateCost (model cfg) (promptTokens (usage response)) (completionTokens (usage response))"
      by (simp add: calculateCost_nonneg)
    with iteration_body_cost [OF nt Inr] show ?thesis by simp
  qed
qed

lemma react_loop_cost_mono:
  assumes nonneg: "\<forall>n msgs opts r. chat w n msgs opts = Inr r \<longrightarrow>
                     0 \<le> promptTokens (usage r) \<and> 0 \<le> completionTokens (usage r)"
  shows "totalCost s \<le> totalCost (state_of (react_loop w cfg ts s))"
  using nonneg
proof (induction w cfg ts s rule: react_loop.induct)
  case (1 w cfg ts s)
  note body = iteration_body_cost_mono [OF "1.prems", where s = s and cfg = cfg and ts = ts]
  show ?case
  proof (cases "iteration s < maxIterations cfg")
    case False
    then show ?thesis by (simp add: react_loop.simps)
  next
    case True
    show ?thesis
    proof (cases "iteration_body w cfg ts s")
      case (Abort e s')
      with True body show ?thesis by (simp add: react_loop.simps)
    next
      case (Break s')
      with True body show ?thesis by (simp add: react_loop.simps)
    next
      case (Continue s')
      with "1.IH" [OF True Continue "1.prems"] True body show ?thesis
        by (simp add: react_loop.simps)
    qed
  qed
qed

text \<open>
  C5. The cost of a call is \<open>promptTokens \<times> inputRate + completionTokens \<times> outputRate\<close>
  with the rate pair of the model in the price table, and with the default pair
  (0.01 / 1000, 0.03 / 1000) for a model that is not in the table. An iteration whose
  gateway call returns adds exactly this amount to the running cost. When the gateway
  reports non-negative token counts, the running cost after an iteration is at least the
  running cost before it, and the cost at the end of the loop is at least the cost at
  any iteration's start.
\<close>

theorem cost_formula_and_monotone:
  "(map_of TOKEN_COSTS m = None \<longrightarrow>
      calculateCost m p c = of_int p * ((1 / 100) / 1000) + of_int c * ((3 / 100) / 1000))
   \<and> (\<forall>rin rout. map_of TOKEN_COSTS m = Some (rin, rout) \<longrightarrow>
         calculateCost m p c = of_int p * rin + of_int c * rout)
   \<and> (\<not> now w (clock_reads s) - startTime s > timeoutSeconds cfg * 1000
        \<and> chat w (llm_calls s) (messages s)
             \<lparr>opt_model = Some (model cfg), opt_tools = Some ts,
              opt_temperature = None, opt_maxTokens = None\<rparr> = Inr response
        \<longrightarrow> totalCost (exit_state (iteration_body w cfg ts s)) =
              totalCost s + calculateCost (model cfg) (promptTokens (usage response))
                                                    (completionTokens (usage response)))
   \<and> ((\<forall>n msgs opts r. chat w n msgs opts = Inr r \<longrightarrow>
           0 \<le> promptTokens (usage r) \<and> 0 \<le> completionTokens (usage r))
        \<longrightarrow> totalCost s \<le> totalCost (exit_state (iteration_body w cfg ts s))
          \<and> totalCost s \<le> totalCost (state_of (react_loop w cfg ts s)))"
proof -
  have 1: "map_of TOKEN_COSTS m = None \<longrightarrow>
      calculateCost m p c = of_int p * ((1 / 100) / 1000) + of_int c * ((3 / 100) / 1000)"
    by (simp add: calculateCost_def costs_of_def default_costs_def)
  have 2: "\<forall>rin rout. map_of TOKEN_COSTS m = Some (rin, rout) \<longrightarrow>
         calculateCost m p c = of_int p * rin + of_int c * rout"
    by (simp add: calculateCost_def costs_of_def)
  from 1 2 show ?thesis
    using iteration_body_cost iteration_body_cost_mono react_loop_cost_mono by blast
qed

theorem cost_formula_and_monotone_witness:
  "map_of TOKEN_COSTS ''gpt-4o'' = None
   \<and> calculateCost ''gpt-4o'' 1000 500 = 1 / 40
   \<and> map_of TOKEN_COSTS ''gpt-4'' = Some (3 / 100000, 6 / 100000)
   \<and> calculateCost ''gpt-4'' 5 3 = 33 / 100000
   \<and> totalCost (exit_state (iteration_body world_direct_answer agent_one_iteration []
                        (loop_entry world_direct_answer ''Be brief.'' ''What is 6 x 7?''))) = 33 / 100000
   \<and> 0 \<le> totalCost (state_of (react_loop world_direct_answer agent_one_iteration []
                                  (loop_entry world_direct_answer ''Be brief.'' ''What is 6 x 7?'')))"
proof -
  let ?s = "loop_entry world_direct_answer ''Be brief.'' ''What is 6 x 7?''"
  have a: "map_of TOKEN_COSTS ''gpt-4o'' = None"
    by (simp add: TOKEN_COSTS_def)
  have b: "map_of TOKEN_COSTS ''gpt-4'' = Some (3 / 100000, 6 / 100000)"
    by (simp add: TOKEN_COSTS_def)
  have nonneg: "\<forall>n msgs opts r. chat world_direct_answer n msgs opts = Inr r \<longrightarrow>
           0 \<le> promptTokens (usage r) \<and> 0 \<le> completionTokens (usage r)"
    by (auto simp: world_direct_answer_def direct_answer_def)
  have c: "calculateCost ''gpt-4o'' 1000 500 = 1 / 40"
    using cost_formula_and_monotone [of "''gpt-4o''" 1000 500] a by simp
  have "calculateCost ''gpt-4'' 5 3 = of_int 5 * (3 / 100000) + of_int 3 * (6 / 100000)"
    using cost_formula_and_monotone [of "''gpt-4''" 5 3] b by blast
  then have d: "calculateCost ''gpt-4'' 5 3 = 33 / 100000"
    by simp
  have zero: "totalCost ?s = 0"
    by (simp add: loop_entry_def initial_state_def)
  have nt: "\<not> now world_direct_answer (clock_reads ?s) - startTime ?s
               > timeoutSeconds agent_one_iteration * 1000"
    by (simp add: loop_entry_def initial_state_def world_direct_answer_def agent_one_iteration_def)
  have reply: "chat world_direct_answer (llm_calls ?s) (messages ?s)
                 \<lparr>opt_model = Some (model agent_one_iteration), opt_tools = Some [],
                  opt_temperature = None, opt_maxTokens = None\<rparr> = Inr direct_answer"
    by (simp add: world_direct_answer_def)
  from cost_formula_and_monotone [where w = world_direct_answer and s = ?s
         and cfg = agent_one_iteration and ts = "[]" and response = direct_answer] nt reply
  have "totalCost (exit_state (iteration_body world_direct_answer agent_one_iteration [] ?s)) =
          totalCost ?s + calculateCost (model agent_one_iteration) (promptTokens (usage direct_answer))
                                       (completionTokens (usage direct_answer))"
    by blast
  then have f: "totalCost (exit_state (iteration_body world_direct_answer agent_one_iteration [] ?s))
                  = 33 / 100000"
    using d zero by (simp add: agent_one_iteration_def direct_answer_def)
  have e: "totalCost ?s \<le> totalCost (state_of (react_loop world_direct_answer agent_one_iteration [] ?s))"
    using cost_formula_and_monotone [where w = world_direct_answer] nonneg by blast
  with a b c d f zero show ?thesis by simp
qed

section \<open>Engine: a final answer on the last permitted iteration\<close>

text \<open>
  C1 at \<open>maxIterations = 1\<close>: the gateway answers \<open>42\<close> without tool calls on iteration 1.
  The engine records the final step, and then the check after the loop, which sees
  \<open>iteration >= maxIterations\<close> with \<open>status\<close> still at its initial value \<open>success\<close>,
  replaces the status by \<open>max_iterations\<close> and the answer by the fixed text.
\<close>

theorem final_answer_on_last_iteration:
  "ReActEngine_execute world_direct_answer agent_one_iteration ''What is 6 x 7?'' ''user-1'' =
     Inr \<lparr>executionId = ''exec-1'', status = MaxIterations,
          output_text = ''Maximum iterations reached without finding a final answer'',
          steps = [\<lparr>stepNumber = 1, stepType = Final, reasoning = Some ''42'', action = None,
                    observation = None, timestamp = 1002\<rparr>],
          tokensUsed = 8, cost = 33 / 100000, executionTimeMs = 3, exec_error = None\<rparr>"
  by (simp add: ReActEngine_execute_def run_execute_def try_block_def initial_state_def
        world_direct_answer_def agent_one_iteration_def direct_answer_def db_call_def
        buildSystemPrompt_def react_loop.simps iteration_body_def read_clock_def add_usage_def
        logStep_def push_step_def calculateCost_def costs_of_def TOKEN_COSTS_def Let_def)

text \<open>With one more iteration permitted, the same answer is returned as the result.\<close>

lemma final_answer_before_last_iteration:
  "ReActEngine_execute world_direct_answer (agent_one_iteration\<lparr>maxIterations := 2\<rparr>)
     ''What is 6 x 7?'' ''user-1'' =
     Inr \<lparr>executionId = ''exec-1'', status = Success, output_text = ''42'',
          steps = [\<lparr>stepNumber = 1, stepType = Final, reasoning = Some ''42'', action = None,
                    observation = None, timestamp = 1002\<rparr>],
          tokensUsed = 8, cost = 33 / 100000, executionTimeMs = 3, exec_error = None\<rparr>"
  by (simp add: ReActEngine_execute_def run_execute_def try_block_def initial_state_def
        world_direct_answer_def agent_one_iteration_def direct_answer_def db_call_def
        buildSystemPrompt_def react_loop.simps iteration_body_def read_clock_def add_usage_def
        logStep_def push_step_def calculateCost_def costs_of_def TOKEN_COSTS_def Let_def)

section \<open>Engine: the outer catch\<close>

text \<open>
  C2 with the database unreachable: the \<open>INSERT\<close> at the start of the \<open>try\<close> block
  throws, and the \<open>UPDATE\<close> that the \<open>catch\<close> block awaits throws again. Nothing catches
  the second exception: for every agent configuration and input, \<open>execute\<close> rejects
  and returns no \<open>ExecutionResult\<close>.
\<close>

theorem execute_rejects_when_catch_update_fails:
  "ReActEngine_execute world_db_down cfg input userId = Inl (Thrown ''connection refused'')"
  by (simp add: ReActEngine_execute_def run_execute_def try_block_def world_db_down_def
        db_call_def read_clock_def Let_def)

section \<open>Engine: order of the step trace\<close>

lemma example_dangling_run:
  "ReActEngine_execute world_log_fails agent_with_search ''Weather?'' ''user-1'' = Inr dangling_result"
  by (simp add: ReActEngine_execute_def run_execute_def try_block_def initial_state_def
        world_log_fails_def world_tool_throws_def agent_with_search_def tool_call_reply_def
        search_call_def dangling_result_def db_call_def buildSystemPrompt_def tool_description_def
        example_runtime_def search_schema_def search_schema_text_def dq_def react_loop.simps iteration_body_def
        read_clock_def add_usage_def process_tool_call_def logStep_def push_step_def
        calculateCost_def costs_of_def TOKEN_COSTS_def Let_def)

text \<open>
  C4, as stated, fails for an execution in which a write to the step log throws in the
  middle of an iteration: the outer \<open>catch\<close> returns the steps recorded so far, and the
  last of them is an action without its observation.
\<close>

theorem dangling_action_counterexample:
  "ReActEngine_execute world_log_fails agent_with_search ''Weather?'' ''user-1'' = Inr dangling_result
   \<and> \<not> trace_ordered (steps dangling_result)"
proof -
  have "\<not> trace_ordered (steps dangling_result)"
    by (simp add: dangling_result_def trace_ordered_def steps_numbered_def iteration_kinds_ok_def)
  with example_dangling_run show ?thesis by simp
qed

text \<open>
  C4, amended. For every execution that returns a result, whatever the database, the
  gateway and the tools do:

  \<^item> the step numbers of the returned steps never decrease, and the steps are an ordered
    trace (the steps of one number are a single \<open>final\<close> step or reasoning, action,
    observation triples, so that every action is directly followed by its observation)
    that may be cut off after the reasoning step, or after the reasoning and action
    steps, of one last tool call;

  \<^item> the trace is ordered whenever it is empty or ends with an observation or a
    \<open>final\<close> step, and whenever the status of the result is not \<open>error\<close>; when it is not
    ordered, a database call threw the error that the result reports;

  \<^item> the returned steps are those of the loop, run from its entry state, and are empty
    when the insert of the execution record, the construction of the system prompt or
    the parsing of the tool schemas failed; the steps of the loop are those of its
    iterations, one after the other;

  \<^item> an iteration that times out, or whose gateway call throws, records no step;

  \<^item> an iteration whose response carries no tool call records exactly one step, the
    \<open>final\<close> step with the response text, numbered with the iteration;

  \<^item> an iteration whose response carries tool calls records a non-empty prefix of the
    expected steps of these calls, which are one reasoning, action, observation triple
    per tool call, in the order of the calls, all numbered with the iteration; it
    records all of them when it ends at the end of the loop body, which it does when
    its writes to the step log succeed.
\<close>

theorem step_trace_ordered_or_cut_off:
  "(\<forall>r sf. run_execute w cfg input userId = (Inr r, sf) \<longrightarrow>
       sorted (map stepNumber (steps r)) \<and> cut_trace (steps r)
       \<and> (steps r = [] \<or> stepType (last (steps r)) = Observation
             \<or> stepType (last (steps r)) = Final \<longrightarrow> trace_ordered (steps r))
       \<and> (status r \<noteq> Error \<longrightarrow> trace_ordered (steps r))
       \<and> (\<not> trace_ordered (steps r) \<longrightarrow>
             (\<exists>n e. db_query w n = Some e \<and> exec_error r = Some (message e)))
       \<and> steps r =
           (case db_query w 0 of
              Some e \<Rightarrow> []
            | None \<Rightarrow>
                (case buildSystemPrompt (builtins w) (systemPrompt cfg) (tools cfg) of
                   Inl e \<Rightarrow> []
                 | Inr prompt \<Rightarrow>
                     (case parse_tools (builtins w) (tools cfg) of
                        Inl e \<Rightarrow> []
                      | Inr ts \<Rightarrow>
                          cur_steps (state_of (react_loop w cfg ts (loop_entry w prompt input)))))))
   \<and> cur_steps (state_of (react_loop w cfg ts s)) =
       (if iteration s < maxIterations cfg
        then (case iteration_body w cfg ts s of
                Continue s' \<Rightarrow> cur_steps (state_of (react_loop w cfg ts s'))
              | Break s' \<Rightarrow> cur_steps s'
              | Abort e s' \<Rightarrow> cur_steps s')
        else cur_steps s)
   \<and> (now w (clock_reads s) - startTime s > timeoutSeconds cfg * 1000 \<longrightarrow>
         (\<exists>s1. iteration_body w cfg ts s = Break s1 \<and> cur_steps s1 = cur_steps s))
   \<and> (\<forall>e. \<not> now w (clock_reads s) - startTime s > timeoutSeconds cfg * 1000
          \<and> chat w (llm_calls s) (messages s)
                \<lparr>opt_model = Some (model cfg), opt_tools = Some ts,
                 opt_temperature = None, opt_maxTokens = None\<rparr> = Inl e \<longrightarrow>
         (\<exists>s1. iteration_body w cfg ts s = Abort e s1 \<and> cur_steps s1 = cur_steps s))
   \<and> (\<not> now w (clock_reads s) - startTime s > timeoutSeconds cfg * 1000
        \<and> chat w (llm_calls s) (messages s)
              \<lparr>opt_model = Some (model cfg), opt_tools = Some ts,
               opt_temperature = None, opt_maxTokens = None\<rparr> = Inr response
       \<longrightarrow>
         (no_tool_calls (toolCalls response) \<longrightarrow>
            cur_steps (exit_state (iteration_body w cfg ts s)) = cur_steps s @
              [\<lparr>stepNumber = iteration s + 1, stepType = Final,
                reasoning = Some (resp_content response), action = None, observation = None,
                timestamp = now w (Suc (clock_reads s))\<rparr>])
         \<and> (\<not> no_tool_calls (toolCalls response) \<longrightarrow>
              (\<exists>k. 1 \<le> k \<and> k \<le> 3 * length (calls_of (toolCalls response))
                 \<and> cur_steps (exit_state (iteration_body w cfg ts s)) = cur_steps s @
                     take k (calls_steps w response (calls_of (toolCalls response)) (iteration s + 1)
                               (Suc (clock_reads s)) (tool_calls s))
                 \<and> (\<forall>s1. iteration_body w cfg ts s = Continue s1 \<longrightarrow>
                        k = 3 * length (calls_of (toolCalls response))))
              \<and> (\<forall>s1. iteration_body w cfg ts s \<noteq> Break s1)
              \<and> ((\<forall>k < 3 * length (calls_of (toolCalls response)).
                      db_query w (db_calls s + k) = None) \<longrightarrow>
                    (\<exists>s1. iteration_body w cfg ts s = Continue s1
                       \<and> iteration s1 = iteration s + 1
                       \<and> cur_steps s1 = cur_steps s @
                           calls_steps w response (calls_of (toolCalls response)) (iteration s + 1)
                             (Suc (clock_reads s)) (tool_calls s)))))
   \<and> map stepType (calls_steps w response tcs num c t) =
       concat (replicate (length tcs) [Reasoning, Action, Observation])
   \<and> map stepNumber (calls_steps w response tcs num c t) = replicate (3 * length tcs) num
   \<and> map action (calls_steps w response tcs num c t) =
       concat (map (\<lambda>tc. [None, Some \<lparr>tool = tc_name tc, arguments = tc_arguments tc\<rparr>, None]) tcs)"
proof (intro conjI allI impI; (elim conjE)?)
  fix r sf
  assume run: "run_execute w cfg input userId = (Inr r, sf)"
  note any = run_execute_any [OF run]
  from any show "sorted (map stepNumber (steps r))" by simp
  from any show "cut_trace (steps r)" by simp
  from any show "\<not> trace_ordered (steps r) \<Longrightarrow>
      \<exists>n e. db_query w n = Some e \<and> exec_error r = Some (message e)" by simp
  from any show "status r \<noteq> Error \<Longrightarrow> trace_ordered (steps r)" by simp
  from any show "steps r = [] \<or> stepType (last (steps r)) = Observation
             \<or> stepType (last (steps r)) = Final \<Longrightarrow> trace_ordered (steps r)"
    using cut_trace_complete by blast
  from run_execute_steps [OF run]
  show "steps r =
           (case db_query w 0 of
              Some e \<Rightarrow> []
            | None \<Rightarrow>
                (case buildSystemPrompt (builtins w) (systemPrompt cfg) (tools cfg) of
                   Inl e \<Rightarrow> []
                 | Inr prompt \<Rightarrow>
                     (case parse_tools (builtins w) (tools cfg) of
                        Inl e \<Rightarrow> []
                      | Inr ts \<Rightarrow>
                          cur_steps (state_of (react_loop w cfg ts (loop_entry w prompt input))))))" .
next
  show "cur_steps (state_of (react_loop w cfg ts s)) =
       (if iteration s < maxIterations cfg
        then (case iteration_body w cfg ts s of
                Continue s' \<Rightarrow> cur_steps (state_of (react_loop w cfg ts s'))
              | Break s' \<Rightarrow> cur_steps s'
              | Abort e s' \<Rightarrow> cur_steps s')
        else cur_steps s)"
    by (rule react_loop_steps)
next
  assume "now w (clock_reads s) - startTime s > timeoutSeconds cfg * 1000"
  with iteration_body_no_step [where w = w and s = s and cfg = cfg and ts = ts]
  show "\<exists>s1. iteration_body w cfg ts s = Break s1 \<and> cur_steps s1 = cur_steps s" by blast
next
  fix e
  assume "\<not> now w (clock_reads s) - startTime s > timeoutSeconds cfg * 1000"
    "chat w (llm_calls s) (messages s)
                \<lparr>opt_model = Some (model cfg), opt_tools = Some ts,
                 opt_temperature = None, opt_maxTokens = None\<rparr> = Inl e"
  with iteration_body_no_step [where w = w and s = s and cfg = cfg and ts = ts]
  show "\<exists>s1. iteration_body w cfg ts s = Abort e s1 \<and> cur_steps s1 = cur_steps s" by blast
next
  assume h: "\<not> now w (clock_reads s) - startTime s > timeoutSeconds cfg * 1000"
    "chat w (llm_calls s) (messages s)
              \<lparr>opt_model = Some (model cfg), opt_tools = Some ts,
               opt_temperature = None, opt_maxTokens = None\<rparr> = Inr response"
  {
    assume "no_tool_calls (toolCalls response)"
    from iteration_body_final_exact [OF h this]
    show "cur_steps (exit_state (iteration_body w cfg ts s)) = cur_steps s @
              [\<lparr>stepNumber = iteration s + 1, stepType = Final,
                reasoning = Some (resp_content response), action = None, observation = None,
                timestamp = now w (Suc (clock_reads s))\<rparr>]" by simp
  next
    assume calls: "\<not> no_tool_calls (toolCalls response)"
    from iteration_body_prefix [OF h calls]
    show "\<exists>k. 1 \<le> k \<and> k \<le> 3 * length (calls_of (toolCalls response))
                 \<and> cur_steps (exit_state (iteration_body w cfg ts s)) = cur_steps s @
                     take k (calls_steps w response (calls_of (toolCalls response)) (iteration s + 1)
                               (Suc (clock_reads s)) (tool_calls s))
                 \<and> (\<forall>s1. iteration_body w cfg ts s = Continue s1 \<longrightarrow>
                        k = 3 * length (calls_of (toolCalls response)))" .
  next
    fix s1
    assume calls: "\<not> no_tool_calls (toolCalls response)"
    from iteration_body_exit_tool_calls [OF h calls]
    show "iteration_body w cfg ts s \<noteq> Break s1" by simp
  next
    assume calls: "\<not> no_tool_calls (toolCalls response)"
      and db: "\<forall>k < 3 * length (calls_of (toolCalls response)). db_query w (db_calls s + k) = None"
    from iteration_body_tool_calls_exact [OF h calls db]
    show "\<exists>s1. iteration_body w cfg ts s = Continue s1
                       \<and> iteration s1 = iteration s + 1
                       \<and> cur_steps s1 = cur_steps s @
                           calls_steps w response (calls_of (toolCalls response)) (iteration s + 1)
                             (Suc (clock_reads s)) (tool_calls s)" by blast
  }
next
  show "map stepType (calls_steps w response tcs num c t) =
       concat (replicate (length tcs) [Reasoning, Action, Observation])"
    by (rule calls_steps_kinds)
next
  show "map stepNumber (calls_steps w response tcs num c t) = replicate (3 * length tcs) num"
    by (induction tcs arbitrary: c t) (simp_all add: call_steps_def numeral_3_eq_3)
next
  show "map action (calls_steps w response tcs num c t) =
       concat (map (\<lambda>tc. [None, Some \<lparr>tool = tc_name tc, arguments = tc_arguments tc\<rparr>, None]) tcs)"
    by (induction tcs arbitrary: c t) (simp_all add: call_steps_def)
qed
theorem step_trace_ordered_or_cut_off_witness:
  "trace_ordered (steps tool_throws_result)
   \<and> sorted (map stepNumber (steps dangling_result)) \<and> cut_trace (steps dangling_result)
   \<and> (\<exists>n e. db_query world_log_fails n = Some e \<and> exec_error dangling_result = Some (message e))
   \<and> (\<exists>s1. iteration_body world_tool_throws agent_with_search [search_schema]
                (loop_entry world_tool_throws ''Be brief.'' ''Weather?'') = Continue s1
          \<and> iteration s1 = 1
          \<and> map stepType (cur_steps s1) = [Reasoning, Action, Observation]
          \<and> map stepNumber (cur_steps s1) = [1, 1, 1])
   \<and> cur_steps (exit_state (iteration_body world_direct_answer agent_one_iteration []
                  (loop_entry world_direct_answer ''Be brief.'' ''Hi''))) =
       [\<lparr>stepNumber = 1, stepType = Final, reasoning = Some ''42'', action = None,
         observation = None, timestamp = 1002\<rparr>]"
proof -
  let ?s = "loop_entry world_tool_throws ''Be brief.'' ''Weather?''"
  let ?d = "loop_entry world_direct_answer ''Be brief.'' ''Hi''"
  have run1: "run_execute world_tool_throws agent_with_search ''Weather?'' ''user-1'' =
                (Inr tool_throws_result,
                 snd (run_execute world_tool_throws agent_with_search ''Weather?'' ''user-1''))"
    using example_tool_throws_run unfolding ReActEngine_execute_def
    by (simp add: prod_eq_iff)
  have run2: "run_execute world_log_fails agent_with_search ''Weather?'' ''user-1'' =
                (Inr dangling_result,
                 snd (run_execute world_log_fails agent_with_search ''Weather?'' ''user-1''))"
    using example_dangling_run unfolding ReActEngine_execute_def
    by (simp add: prod_eq_iff)
  have st1: "status tool_throws_result \<noteq> Error" by (simp add: tool_throws_result_def)
  have no: "\<not> trace_ordered (steps dangling_result)"
    by (simp add: dangling_result_def trace_ordered_def steps_numbered_def iteration_kinds_ok_def)
  from step_trace_ordered_or_cut_off
         [where w = world_tool_throws and cfg = agent_with_search and input = "''Weather?''"
            and userId = "''user-1''"] run1 st1
  have A: "trace_ordered (steps tool_throws_result)" by blast
  from step_trace_ordered_or_cut_off
         [where w = world_log_fails and cfg = agent_with_search and input = "''Weather?''"
            and userId = "''user-1''"] run2 no
  have B: "sorted (map stepNumber (steps dangling_result)) \<and> cut_trace (steps dangling_result)
     \<and> (\<exists>n e. db_query world_log_fails n = Some e \<and> exec_error dangling_result = Some (message e))"
    by blast
  have h: "\<not> now world_tool_throws (clock_reads ?s) - startTime ?s
               > timeoutSeconds agent_with_search * 1000"
          "chat world_tool_throws (llm_calls ?s) (messages ?s)
              \<lparr>opt_model = Some (model agent_with_search), opt_tools = Some [search_schema],
               opt_temperature = None, opt_maxTokens = None\<rparr> = Inr tool_call_reply"
          "\<not> no_tool_calls (toolCalls tool_call_reply)"
          "\<forall>k < 3 * length (calls_of (toolCalls tool_call_reply)).
              db_query world_tool_throws (db_calls ?s + k) = None"
    by (simp_all add: loop_entry_def initial_state_def agent_with_search_def world_tool_throws_def
          tool_call_reply_def)
  from step_trace_ordered_or_cut_off
         [where w = world_tool_throws and cfg = agent_with_search and ts = "[search_schema]"
            and s = ?s and response = tool_call_reply] h
  obtain s1 where c: "iteration_body world_tool_throws agent_with_search [search_schema] ?s = Continue s1"
    and i: "iteration s1 = iteration ?s + 1"
    and s: "cur_steps s1 = cur_steps ?s @
              calls_steps world_tool_throws tool_call_reply (calls_of (toolCalls tool_call_reply))
                (iteration ?s + 1) (Suc (clock_reads ?s)) (tool_calls ?s)"
    by blast
  have C: "\<exists>s1. iteration_body world_tool_throws agent_with_search [search_schema] ?s = Continue s1
          \<and> iteration s1 = 1
          \<and> map stepType (cur_steps s1) = [Reasoning, Action, Observation]
          \<and> map stepNumber (cur_steps s1) = [1, 1, 1]"
    using c i s
    by (intro exI [of _ s1])
       (simp add: loop_entry_def initial_state_def tool_call_reply_def call_steps_def)
  have g: "\<not> now world_direct_answer (clock_reads ?d) - startTime ?d
               > timeoutSeconds agent_one_iteration * 1000"
          "chat world_direct_answer (llm_calls ?d) (messages ?d)
              \<lparr>opt_model = Some (model agent_one_iteration), opt_tools = Some [],
               opt_temperature = None, opt_maxTokens = None\<rparr> = Inr direct_answer"
          "no_tool_calls (toolCalls direct_answer)"
    by (simp_all add: loop_entry_def initial_state_def agent_one_iteration_def world_direct_answer_def
          direct_answer_def)
  from step_trace_ordered_or_cut_off
         [where w = world_direct_answer and cfg = agent_one_iteration and ts = "[]"
            and s = ?d and response = direct_answer] g
  have "cur_steps (exit_state (iteration_body world_direct_answer agent_one_iteration [] ?d)) =
          cur_steps ?d @
              [\<lparr>stepNumber = iteration ?d + 1, stepType = Final,
                reasoning = Some (resp_content direct_answer), action = None, observation = None,
                timestamp = now world_direct_answer (Suc (clock_reads ?d))\<rparr>]"
    by blast
  then have D: "cur_steps (exit_state (iteration_body world_direct_answer agent_one_iteration [] ?d)) =
       [\<lparr>stepNumber = 1, stepType = Final, reasoning = Some ''42'', action = None,
         observation = None, timestamp = 1002\<rparr>]"
    by (simp add: loop_entry_def initial_state_def direct_answer_def world_direct_answer_def)
  from A B C D show ?thesis by blast
qed

section \<open>Engine: the timeout check\<close>

text \<open>
  C7, as stated, fails for \<open>timeoutSeconds = 0\<close> when the clock has not advanced between
  the start of \<open>execute\<close> and the first check: the comparison \<open>elapsed > 0\<close> is false,
  the gateway is called and its answer is returned.
\<close>

theorem zero_timeout_counterexample:
  "timeoutSeconds agent_zero_timeout = 0
   \<and> ReActEngine_execute world_frozen_clock agent_zero_timeout ''What is 6 x 7?'' ''user-1'' =
       Inr zero_timeout_result
   \<and> status zero_timeout_result = Success
   \<and> tokensUsed zero_timeout_result = 8
   \<and> llm_calls (snd (run_execute world_frozen_clock agent_zero_timeout ''What is 6 x 7?'' ''user-1'')) = 1"
  by (simp add: ReActEngine_execute_def run_execute_def try_block_def initial_state_def
        world_frozen_clock_def agent_zero_timeout_def zero_timeout_result_def
        world_direct_answer_def direct_answer_def db_call_def
        buildSystemPrompt_def react_loop.simps iteration_body_def read_clock_def add_usage_def
        logStep_def push_step_def calculateCost_def costs_of_def TOKEN_COSTS_def Let_def)

text \<open>
  C7, amended. When the clock reading of the first iteration's check is more than
  \<open>timeoutSeconds \<times> 1000\<close> milliseconds after the start (for \<open>timeoutSeconds = 0\<close>: at
  least one millisecond has passed), \<open>maxIterations\<close> is at least 1, the system prompt
  is built and the three database calls of such a run (the insert of the execution
  record, its update and the usage record) do not throw, the execution ends at that check: the result has
  status \<open>Timeout\<close>, output \<open>Execution timed out\<close>, no steps, zero tokens and zero cost,
  and neither the gateway nor a tool was called.
\<close>

theorem timeout_before_first_gateway_call:
  assumes db: "\<forall>n<3. db_query w n = None"
      and prompt: "buildSystemPrompt (builtins w) (systemPrompt cfg) (tools cfg) = Inr prompt"
      and iters: "1 \<le> maxIterations cfg"
      and late: "now w 1 - now w 0 > timeoutSeconds cfg * 1000"
  shows "\<exists>r s. run_execute w cfg input userId = (Inr r, s)
           \<and> ReActEngine_execute w cfg input userId = Inr r
           \<and> status r = Timeout \<and> output_text r = ''Execution timed out''
           \<and> tokensUsed r = 0 \<and> cost r = 0 \<and> steps r = [] \<and> exec_error r = None
           \<and> llm_calls s = 0 \<and> tool_calls s = 0"
proof -
  from prompt obtain ds where "tool_descriptions (builtins w) (tools cfg) = Inr ds"
    by (auto simp: buildSystemPrompt_def split: sum.splits)
  from parse_tools_of_descriptions [OF this] obtain ts
    where ts: "parse_tools (builtins w) (tools cfg) = Inr ts" by blast
  from db have d: "db_query w 0 = None" "db_query w (Suc 0) = None" "db_query w (Suc (Suc 0)) = None"
    by simp_all
  show ?thesis
    using prompt ts iters late
    by (simp add: ReActEngine_execute_def run_execute_def try_block_def initial_state_def
          db_call_def d react_loop.simps iteration_body_def read_clock_def Let_def)
qed

theorem timeout_before_first_gateway_call_witness:
  "timeoutSeconds agent_zero_timeout = 0
   \<and> (\<exists>r s. run_execute world_direct_answer agent_zero_timeout ''What is 6 x 7?'' ''user-1'' = (Inr r, s)
          \<and> status r = Timeout \<and> output_text r = ''Execution timed out'' \<and> tokensUsed r = 0
          \<and> llm_calls s = 0)"
proof -
  have db: "\<forall>n<3. db_query world_direct_answer n = None"
    by (simp add: world_direct_answer_def)
  obtain prompt where prompt: "buildSystemPrompt (builtins world_direct_answer)
      (systemPrompt agent_zero_timeout) (tools agent_zero_timeout) = Inr prompt"
    by (simp add: buildSystemPrompt_def agent_zero_timeout_def)
  have iters: "1 \<le> maxIterations agent_zero_timeout"
    by (simp add: agent_zero_timeout_def)
  have late: "now world_direct_answer 1 - now world_direct_answer 0
                > timeoutSeconds agent_zero_timeout * 1000"
    by (simp add: world_direct_answer_def agent_zero_timeout_def)
  from timeout_before_first_gateway_call [OF db prompt iters late, of "''What is 6 x 7?''" "''user-1''"]
  show ?thesis by (auto simp: agent_zero_timeout_def)
qed

section \<open>Engine: a tool schema that is not JSON\<close>

text \<open>
  What the code does with a schema that is not valid JSON (\<open>JSON.parse\<close> throws on it)
  when the database update awaited in the \<open>catch\<close> block, the second database call of
  such a run, does not throw: \<open>execute\<close> returns a result with status \<open>Error\<close>, empty
  output, no steps, zero tokens, zero cost and an error message, and neither the gateway
  nor a tool was called. When the insert of the execution record succeeds too, the
  exception is the one thrown while the system prompt is built from the tool schemas.
\<close>

lemma invalid_schema_error_when_update_succeeds:
  assumes t: "t \<in> set (tools cfg)"
      and bad: "JSON_parse (builtins w) (schema t) = Inl e"
      and upd: "db_query w 1 = None"
  shows "\<exists>r s. run_execute w cfg input userId = (Inr r, s)
           \<and> ReActEngine_execute w cfg input userId = Inr r
           \<and> status r = Error \<and> output_text r = '''' \<and> steps r = []
           \<and> tokensUsed r = 0 \<and> cost r = 0 \<and> exec_error r \<noteq> None
           \<and> llm_calls s = 0 \<and> tool_calls s = 0
           \<and> (db_query w 0 = None \<longrightarrow>
                 (\<exists>e'. buildSystemPrompt (builtins w) (systemPrompt cfg) (tools cfg) = Inl e'
                       \<and> exec_error r = Some (message e')))"
proof -
  from tool_descriptions_bad_schema [OF t bad] obtain e'
    where "tool_descriptions (builtins w) (tools cfg) = Inl e'" by blast
  then have p: "buildSystemPrompt (builtins w) (systemPrompt cfg) (tools cfg) = Inl e'"
    by (simp add: buildSystemPrompt_def)
  show ?thesis
  proof (cases "db_query w 0")
    case None
    with p upd show ?thesis
      by (simp add: ReActEngine_execute_def run_execute_def try_block_def initial_state_def
            db_call_def read_clock_def Let_def)
  next
    case (Some e0)
    with upd show ?thesis
      by (simp add: ReActEngine_execute_def run_execute_def try_block_def initial_state_def
            db_call_def read_clock_def Let_def)
  qed
qed

text \<open>
  C10 with a database that fails after the insert of the execution record: the agent has
  a tool whose schema is not JSON, building the system prompt throws, and the update
  awaited in the \<open>catch\<close> block throws in turn. Nothing catches the second exception:
  \<open>execute\<close> rejects, and no \<open>ExecutionResult\<close> with status \<open>Error\<close> is returned.
\<close>

theorem invalid_schema_rejects_when_update_fails:
  "JSON_parse (builtins world_update_fails) (JStr ''{not json'') = Inl (Thrown ''Unexpected token'')
   \<and> tools agent_bad_schema =
       [\<lparr>tool_id = ''tool-1'', tool_name = ''web_search'', schema = JStr ''{not json''\<rparr>]
   \<and> db_query world_update_fails 0 = None
   \<and> ReActEngine_execute world_update_fails agent_bad_schema ''Weather?'' ''user-1'' =
       Inl (Thrown ''connection lost'')"
  by (simp add: ReActEngine_execute_def run_execute_def try_block_def initial_state_def
        world_update_fails_def world_direct_answer_def agent_bad_schema_def example_runtime_def
        search_schema_text_def buildSystemPrompt_def tool_description_def db_call_def
        read_clock_def Let_def)

section \<open>Engine: a tool invocation that throws\<close>








end
